theory Spec2Isabelle
  imports Complex_Main "HOL-Library.List_Lexorder" "HOL-Library.Char_ord"
    "HOL-Library.Product_Lexorder" "HOL-Library.Multiset"
begin

section \<open>Values and tables\<close>

text \<open>
  The program (\<^verbatim>\<open>app.py\<close>) loads two CSV tables into pandas frames and serves a Dash
  page whose callbacks are pure functions of the component properties they are given.

  A float64 is modelled by its real value, with \<open>NaN\<close> apart (rounding and the
  infinities are left out). A cell of a signal column of the observation CSV is either
  such a number (an empty field is read as \<open>NaN\<close>) or, when the column does not parse as
  numbers, the text of the field. Strings are compared as Python compares them,
  lexicographically by character code.
\<close>

datatype float64 = Float real | NaN

datatype cell = Numeric float64 | Text string

datatype error = TypeError | IndexError | KeyError | ValueError

text \<open>
  An identifier of a station is an integer or a string: a column of a CSV file is read as
  integers when every field of it is one, and as strings otherwise. Keys are put in order
  as the library does it, integers by value and strings by character code (integers first,
  should a column hold both).
\<close>

datatype ident = Int_id int | Str_id string

fun id_key :: "ident \<Rightarrow> nat \<times> int \<times> string" where
  "id_key (Int_id n) = (0, n, [])"
| "id_key (Str_id s) = (1, 0, s)"

fun is_int_id :: "ident \<Rightarrow> bool" where
  "is_int_id (Int_id n) = True"
| "is_int_id (Str_id s) = False"

text \<open>The column \<^verbatim>\<open>ID\<close> is shared by every frame of the program.\<close>

record keyed =
  ID :: ident

text \<open>A row of \<^verbatim>\<open>data_df\<close>.\<close>

record obs_row = keyed +
  VALIDTIME :: string
  ft :: int
  ObsGustSpd1h :: cell
  wt_operation :: cell
  arc_gust_pred :: cell

text \<open>A row of \<^verbatim>\<open>loc_df\<close>, after the selection of three columns and the renaming of
  \<^verbatim>\<open>HEAD:ID\<close> to \<^verbatim>\<open>ID\<close>.\<close>

record loc_row = keyed +
  LATD :: float64
  LOND :: float64

text \<open>A row of \<^verbatim>\<open>freq_df\<close>.\<close>

record freq_row = keyed +
  obs_freq :: float64
  wt_freq :: float64
  arc_freq :: float64


section \<open>Frequency of gusts of 25 m/s and more\<close>

text \<open>
  \<^verbatim>\<open>group[column] >= 25\<close>, one cell at a time: a number is compared, \<open>NaN\<close> compares
  false, and a text against an integer raises \<^verbatim>\<open>TypeError\<close>.
\<close>

fun ge_25 :: "cell \<Rightarrow> error + bool" where
  "ge_25 (Numeric (Float x)) = Inr (25 \<le> x)"
| "ge_25 (Numeric NaN) = Inr False"
| "ge_25 (Text s) = Inl TypeError"

fun series_ge_25 :: "cell list \<Rightarrow> error + bool list" where
  "series_ge_25 [] = Inr []"
| "series_ge_25 (c # cs) =
     (case ge_25 c of
        Inl e \<Rightarrow> Inl e
      | Inr b \<Rightarrow> (case series_ge_25 cs of Inl e \<Rightarrow> Inl e | Inr bs \<Rightarrow> Inr (b # bs)))"

text \<open>
  \<^verbatim>\<open>(group[column] >= 25).sum() / len(group)\<close>. The sum is a numpy integer, so a
  division by the length zero gives \<open>NaN\<close> (the sum is zero then) and does not raise.
\<close>

definition calc_freq :: "obs_row list \<Rightarrow> (obs_row \<Rightarrow> cell) \<Rightarrow> error + float64" where
  "calc_freq g column =
     (case series_ge_25 (map column g) of
        Inl e \<Rightarrow> Inl e
      | Inr bs \<Rightarrow>
          Inr (if length g = 0 then NaN
               else Float (real (length (filter (\<lambda>b. b) bs)) / real (length g))))"

text \<open>The function applied to every group: the three frequencies, in the order written.\<close>

definition freq_series :: "ident \<Rightarrow> obs_row list \<Rightarrow> error + freq_row" where
  "freq_series k g =
     (case calc_freq g ObsGustSpd1h of
        Inl e \<Rightarrow> Inl e
      | Inr ob \<Rightarrow>
          (case calc_freq g wt_operation of
             Inl e \<Rightarrow> Inl e
           | Inr wt \<Rightarrow>
               (case calc_freq g arc_gust_pred of
                  Inl e \<Rightarrow> Inl e
                | Inr ar \<Rightarrow>
                    Inr \<lparr>ID = k, obs_freq = ob, wt_freq = wt, arc_freq = ar\<rparr>)))"

text \<open>
  \<^verbatim>\<open>data_df.groupby("ID")\<close>: one group for every value of \<^verbatim>\<open>ID\<close> that occurs, the
  groups in ascending order of the key, a group holding the rows of its key in the order
  of the table.
\<close>

definition group_keys :: "obs_row list \<Rightarrow> ident list" where
  "group_keys data = sort_key id_key (remdups (map ID data))"

definition get_group :: "obs_row list \<Rightarrow> ident \<Rightarrow> obs_row list" where
  "get_group data k = filter (\<lambda>r. ID r = k) data"

text \<open>\<^verbatim>\<open>.apply(...)\<close> over the groups; the first exception ends the whole computation.\<close>

fun apply_groups :: "obs_row list \<Rightarrow> ident list \<Rightarrow> error + freq_row list" where
  "apply_groups data [] = Inr []"
| "apply_groups data (k # ks) =
     (case freq_series k (get_group data k) of
        Inl e \<Rightarrow> Inl e
      | Inr f \<Rightarrow> (case apply_groups data ks of Inl e \<Rightarrow> Inl e | Inr fs \<Rightarrow> Inr (f # fs)))"

text \<open>The frequency table of a table of observations that has a row (the table without a
  row is the matter of \<open>load_module\<close>).\<close>

definition freq_df :: "obs_row list \<Rightarrow> error + freq_row list" where
  "freq_df data = apply_groups data (group_keys data)"

text \<open>
  The words of the specification: a row crosses the threshold when its value is a number
  that is at least 25.
\<close>

fun crosses :: "cell \<Rightarrow> bool" where
  "crosses (Numeric (Float x)) = (25 \<le> x)"
| "crosses c = False"

fun is_number :: "cell \<Rightarrow> bool" where
  "is_number (Numeric v) = True"
| "is_number (Text s) = False"

definition numeric_row :: "obs_row \<Rightarrow> bool" where
  "numeric_row r \<longleftrightarrow>
     is_number (ObsGustSpd1h r) \<and> is_number (wt_operation r) \<and> is_number (arc_gust_pred r)"

text \<open>The ratio of crossings in a list of rows, and the row of frequencies that it gives
  for the rows of a key; both serve the proofs.\<close>

definition crossing_ratio :: "obs_row list \<Rightarrow> (obs_row \<Rightarrow> cell) \<Rightarrow> real" where
  "crossing_ratio g column =
     real (length (filter (\<lambda>r. crosses (column r)) g)) / real (length g)"

definition freq_of :: "obs_row list \<Rightarrow> ident \<Rightarrow> freq_row" where
  "freq_of data k =
     \<lparr>ID = k,
      obs_freq = Float (crossing_ratio (get_group data k) ObsGustSpd1h),
      wt_freq = Float (crossing_ratio (get_group data k) wt_operation),
      arc_freq = Float (crossing_ratio (get_group data k) arc_gust_pred)\<rparr>"

text \<open>Rows of two stations, one after the other in the table: of the ten rows of \<open>X\<close>
  three have an observed gust of 25 or more, of the four rows of \<open>Y\<close> one.\<close>

definition obs :: "string \<Rightarrow> string \<Rightarrow> real \<Rightarrow> real \<Rightarrow> obs_row" where
  "obs sid t v w =
     \<lparr>ID = Str_id sid, VALIDTIME = t, ft = 0, ObsGustSpd1h = Numeric (Float v),
      wt_operation = Numeric (Float w), arc_gust_pred = Numeric NaN\<rparr>"

definition two_station_rows :: "obs_row list" where
  "two_station_rows =
     [obs ''X'' ''2025-02-13 00:00'' 12 30, obs ''Y'' ''2025-02-13 00:00'' 26 30,
      obs ''X'' ''2025-02-13 01:00'' 25 30, obs ''X'' ''2025-02-13 02:00'' 31 20,
      obs ''Y'' ''2025-02-13 01:00'' 24 30, obs ''X'' ''2025-02-13 03:00'' 24.9 20,
      obs ''X'' ''2025-02-13 04:00'' 8 20, obs ''X'' ''2025-02-13 05:00'' 3 20,
      obs ''Y'' ''2025-02-13 02:00'' 3 30, obs ''X'' ''2025-02-13 06:00'' 27.5 30,
      obs ''X'' ''2025-02-13 07:00'' 0 30, obs ''Y'' ''2025-02-13 03:00'' 0 30,
      obs ''X'' ''2025-02-13 08:00'' 19 30, obs ''X'' ''2025-02-13 09:00'' 20 20]"

text \<open>Three small tables: two stations with clean rows; the same with one more row of
  station \<open>A\<close> whose observed gust is missing; and a table whose column of observed gusts
  holds a field that is no number, so that the whole column is read as texts.\<close>

definition clean_rows :: "obs_row list" where
  "clean_rows =
     [\<lparr>ID = Str_id ''A'', VALIDTIME = ''2025-02-13 00:00'', ft = 0,
       ObsGustSpd1h = Numeric (Float 30),
       wt_operation = Numeric (Float 10), arc_gust_pred = Numeric (Float 10)\<rparr>,
      \<lparr>ID = Str_id ''B'', VALIDTIME = ''2025-02-13 00:00'', ft = 0,
       ObsGustSpd1h = Numeric (Float 10),
       wt_operation = Numeric (Float 10), arc_gust_pred = Numeric (Float 10)\<rparr>]"

definition missing_row :: "obs_row" where
  "missing_row =
     \<lparr>ID = Str_id ''A'', VALIDTIME = ''2025-02-13 01:00'', ft = 1, ObsGustSpd1h = Numeric NaN,
      wt_operation = Numeric (Float 10), arc_gust_pred = Numeric (Float 10)\<rparr>"

definition text_rows :: "obs_row list" where
  "text_rows =
     [\<lparr>ID = Str_id ''A'', VALIDTIME = ''2025-02-13 00:00'', ft = 0,
       ObsGustSpd1h = Text ''30'',
       wt_operation = Numeric (Float 10), arc_gust_pred = Numeric (Float 10)\<rparr>,
      \<lparr>ID = Str_id ''B'', VALIDTIME = ''2025-02-13 00:00'', ft = 0,
       ObsGustSpd1h = Text ''10'',
       wt_operation = Numeric (Float 10), arc_gust_pred = Numeric (Float 10)\<rparr>,
      \<lparr>ID = Str_id ''A'', VALIDTIME = ''2025-02-13 01:00'', ft = 1,
       ObsGustSpd1h = Text ''error'',
       wt_operation = Numeric (Float 10), arc_gust_pred = Numeric (Float 10)\<rparr>]"


section \<open>The joined table and the map\<close>

text \<open>A row of \<^verbatim>\<open>plot_df\<close>: a row of \<^verbatim>\<open>freq_df\<close> with the columns \<^verbatim>\<open>LATD\<close> and
  \<^verbatim>\<open>LOND\<close> that the join adds (named \<open>plot_LATD\<close> and \<open>plot_LOND\<close> here, since a
  field name belongs to one record).\<close>

record plot_row = freq_row +
  plot_LATD :: float64
  plot_LOND :: float64

definition joined :: "freq_row \<Rightarrow> float64 \<Rightarrow> float64 \<Rightarrow> plot_row" where
  "joined f la lo =
     \<lparr>ID = ID f, obs_freq = obs_freq f, wt_freq = wt_freq f, arc_freq = arc_freq f,
      plot_LATD = la, plot_LOND = lo\<rparr>"

text \<open>
  \<^verbatim>\<open>freq_df.merge(loc_df, on="ID", how="left")\<close>. The library refuses the join
  (\<^verbatim>\<open>ValueError\<close>) when neither table is empty and the key column of one holds integers
  and that of the other strings. Otherwise the result has the rows of the left table in
  their order, each once for every row of the right table with the same \<^verbatim>\<open>ID\<close>, and
  once with missing coordinates when the right table has no such row.
\<close>

definition merge_raises :: "ident list \<Rightarrow> ident list \<Rightarrow> bool" where
  "merge_raises lk rk \<longleftrightarrow>
     lk \<noteq> [] \<and> rk \<noteq> [] \<and>
     (list_all is_int_id lk \<and> list_all (\<lambda>k. \<not> is_int_id k) rk \<or>
      list_all (\<lambda>k. \<not> is_int_id k) lk \<and> list_all is_int_id rk)"

definition merge_rows :: "freq_row list \<Rightarrow> loc_row list \<Rightarrow> plot_row list" where
  "merge_rows left right =
     concat (map (\<lambda>f. case filter (\<lambda>l. ID l = ID f) right of
                          [] \<Rightarrow> [joined f NaN NaN]
                        | ms \<Rightarrow> map (\<lambda>l. joined f (LATD l) (LOND l)) ms) left)"

definition merge_left :: "freq_row list \<Rightarrow> loc_row list \<Rightarrow> error + plot_row list" where
  "merge_left left right =
     (if merge_raises (map ID left) (map ID right) then Inl ValueError
      else Inr (merge_rows left right))"

text \<open>Comparisons of a float column with a constant: \<open>NaN\<close> compares false both ways.\<close>

fun float_ge :: "float64 \<Rightarrow> real \<Rightarrow> bool" where
  "float_ge (Float x) c = (c \<le> x)"
| "float_ge NaN c = False"

fun float_lt :: "float64 \<Rightarrow> real \<Rightarrow> bool" where
  "float_lt (Float x) c = (x < c)"
| "float_lt NaN c = False"

text \<open>The tables that the module holds once it is loaded.\<close>

record module =
  loc_df :: "loc_row list"
  data_df :: "obs_row list"
  plot_df :: "plot_row list"
  high_freq_df :: "plot_row list"
  low_freq_df :: "plot_row list"

text \<open>
  The statements of the module from the two loaded tables to \<^verbatim>\<open>low_freq_df\<close>. With a
  table of observations that has no row they raise: the frame that \<^verbatim>\<open>apply\<close> returns for
  no group has the columns of the table and none of the frequencies, and either
  \<^verbatim>\<open>reset_index\<close> refuses to insert a second column \<^verbatim>\<open>ID\<close> (\<^verbatim>\<open>ValueError\<close>, the
  value given here) or, in versions of the library that leave the key out of the groups,
  the column \<^verbatim>\<open>obs_freq\<close> is not found (\<^verbatim>\<open>KeyError\<close>).
\<close>

definition load_module :: "loc_row list \<Rightarrow> obs_row list \<Rightarrow> error + module" where
  "load_module loc data =
     (if data = [] then Inl ValueError
      else
        (case freq_df data of
           Inl e \<Rightarrow> Inl e
         | Inr fs \<Rightarrow>
             (case merge_left fs loc of
                Inl e \<Rightarrow> Inl e
              | Inr plot \<Rightarrow>
                  Inr \<lparr>loc_df = loc, data_df = data, plot_df = plot,
                       high_freq_df = filter (\<lambda>p. float_ge (obs_freq p) 0.004) plot,
                       low_freq_df = filter (\<lambda>p. float_lt (obs_freq p) 0.004) plot\<rparr>)))"

text \<open>Values of the component properties that the callbacks exchange with the page.\<close>

datatype json = JNull | JNum float64 | JStr string | JDict "(string \<times> json) list"

type_synonym dict = "(string \<times> json) list"

text \<open>\<^verbatim>\<open>d.get(k, default)\<close>, and \<^verbatim>\<open>k in d\<close> is \<open>map_of d k \<noteq> None\<close>.\<close>

definition dict_get :: "dict \<Rightarrow> string \<Rightarrow> json \<Rightarrow> json" where
  "dict_get d k dflt = (case map_of d k of None \<Rightarrow> dflt | Some v \<Rightarrow> v)"

text \<open>\<^verbatim>\<open>Series.mean()\<close>: the mean of the values that are not missing, \<open>NaN\<close> when
  there is none.\<close>

fun dropna :: "float64 list \<Rightarrow> real list" where
  "dropna [] = []"
| "dropna (Float x # vs) = x # dropna vs"
| "dropna (NaN # vs) = dropna vs"

definition mean :: "float64 list \<Rightarrow> float64" where
  "mean vs = (if dropna vs = [] then NaN
              else Float (sum_list (dropna vs) / real (length (dropna vs))))"

text \<open>A \<^verbatim>\<open>Scattermapbox\<close> trace (\<open>marker_text\<close> is its \<^verbatim>\<open>text\<close>), the centre of the map,
  whose two properties are numbers or unset, and the figure.\<close>

record trace =
  lat :: "float64 list"
  lon :: "float64 list"
  trace_mode :: string
  marker_size :: nat
  marker_color :: string
  marker_opacity :: "real list"
  marker_text :: "ident list"
  trace_name :: string
  hoverinfo :: string

record center =
  center_lat :: "float64 option"
  center_lon :: "float64 option"

record figure =
  fig_data :: "trace list"
  mapbox_style :: string
  mapbox_zoom :: "float64 option"
  mapbox_center :: center
  margin :: "(string \<times> nat) list"
  clickmode :: string
  dragmode :: string

text \<open>The default centre as a dictionary, as \<^verbatim>\<open>save_map_state\<close> writes it.\<close>

definition default_center :: "module \<Rightarrow> json" where
  "default_center m =
     JDict [(''lat'', JNum (mean (map LATD (loc_df m)))),
            (''lon'', JNum (mean (map LOND (loc_df m))))]"

definition scattermapbox :: "ident list \<Rightarrow> plot_row list \<Rightarrow> string \<Rightarrow> string \<Rightarrow> trace" where
  "scattermapbox selected_ids df color nm =
     \<lparr>lat = map plot_LATD df,
      lon = map plot_LOND df,
      trace_mode = ''markers'',
      marker_size = 8,
      marker_color = color,
      marker_opacity = map (\<lambda>sid. if sid \<in> set selected_ids then 1.0 else 0.4) (map ID df),
      marker_text = map ID df,
      trace_name = nm,
      hoverinfo = ''text''\<rparr>"

definition create_map :: "module \<Rightarrow> ident list \<Rightarrow> figure" where
  "create_map m selected_ids =
     \<lparr>fig_data =
        [scattermapbox selected_ids (low_freq_df m) ''blue'' ''Low Frequency'',
         scattermapbox selected_ids (high_freq_df m) ''red'' ''High Frequency''],
      mapbox_style = ''carto-positron'',
      mapbox_zoom = Some (Float 7),
      mapbox_center =
        \<lparr>center_lat = Some (mean (map LATD (loc_df m))),
         center_lon = Some (mean (map LOND (loc_df m)))\<rparr>,
      margin = [(''r'', 0), (''t'', 0), (''l'', 0), (''b'', 0)],
      clickmode = ''event+select'',
      dragmode = ''pan''\<rparr>"

text \<open>
  \<^verbatim>\<open>update_layout(mapbox_center=..., mapbox_zoom=...)\<close> of the figure. A property that
  is a number takes a number, and is unset by \<^verbatim>\<open>None\<close>; every other value is refused
  (\<^verbatim>\<open>ValueError\<close>). A dictionary given for the centre is merged into the centre that the
  figure has: the properties that it names are set, the others stay, and a key that is no
  property of the centre is refused; \<^verbatim>\<open>None\<close> for the centre unsets both properties.
\<close>

fun number_property :: "json \<Rightarrow> error + float64 option" where
  "number_property (JNum v) = Inr (Some v)"
| "number_property JNull = Inr None"
| "number_property (JStr s) = Inl ValueError"
| "number_property (JDict kv) = Inl ValueError"

definition merge_property :: "dict \<Rightarrow> string \<Rightarrow> float64 option \<Rightarrow> error + float64 option" where
  "merge_property kv k old = (case map_of kv k of None \<Rightarrow> Inr old | Some v \<Rightarrow> number_property v)"

fun update_center :: "center \<Rightarrow> json \<Rightarrow> error + center" where
  "update_center c (JDict kv) =
     (if list_ex (\<lambda>k. k \<noteq> ''lat'' \<and> k \<noteq> ''lon'') (map fst kv) then Inl ValueError
      else
        (case merge_property kv ''lat'' (center_lat c) of
           Inl e \<Rightarrow> Inl e
         | Inr la \<Rightarrow>
             (case merge_property kv ''lon'' (center_lon c) of
                Inl e \<Rightarrow> Inl e
              | Inr lo \<Rightarrow> Inr \<lparr>center_lat = la, center_lon = lo\<rparr>)))"
| "update_center c JNull = Inr \<lparr>center_lat = None, center_lon = None\<rparr>"
| "update_center c (JNum v) = Inl ValueError"
| "update_center c (JStr s) = Inl ValueError"

definition update_layout :: "figure \<Rightarrow> json \<Rightarrow> json \<Rightarrow> error + figure" where
  "update_layout fig new_center new_zoom =
     (case update_center (mapbox_center fig) new_center of
        Inl e \<Rightarrow> Inl e
      | Inr c \<Rightarrow>
          (case number_property new_zoom of
             Inl e \<Rightarrow> Inl e
           | Inr z \<Rightarrow> Inr (fig\<lparr>mapbox_center := c, mapbox_zoom := z\<rparr>)))"

text \<open>The callback \<^verbatim>\<open>update_map_figure\<close>. A stored state is \<^verbatim>\<open>None\<close> or a dictionary;
  \<^verbatim>\<open>None\<close> and the empty dictionary are false.\<close>

definition update_map_figure :: "module \<Rightarrow> ident list \<Rightarrow> dict option \<Rightarrow> error + figure" where
  "update_map_figure m selected_ids map_state =
     (let map_fig = create_map m selected_ids in
      case map_state of
        None \<Rightarrow> Inr map_fig
      | Some st \<Rightarrow>
          (if st \<noteq> [] \<and> map_of st ''center'' \<noteq> None \<and> map_of st ''zoom'' \<noteq> None
           then update_layout map_fig (dict_get st ''center'' JNull) (dict_get st ''zoom'' JNull)
           else Inr map_fig))"

text \<open>The callback \<^verbatim>\<open>save_map_state\<close>.\<close>

definition save_map_state :: "module \<Rightarrow> dict option \<Rightarrow> dict option \<Rightarrow> dict option" where
  "save_map_state m relayout_data current_state =
     (case relayout_data of
        None \<Rightarrow> current_state
      | Some rd \<Rightarrow>
          (if rd = [] then current_state
           else
             (let cs = (case current_state of None \<Rightarrow> [] | Some st \<Rightarrow> st);
                  zoom = dict_get rd ''mapbox.zoom'' (dict_get cs ''zoom'' (JNum (Float 7)));
                  center = dict_get rd ''mapbox.center''
                             (dict_get cs ''center'' (default_center m))
              in Some [(''zoom'', zoom), (''center'', center)])))"


section \<open>The selection of stations\<close>

text \<open>
  The property \<^verbatim>\<open>clickData\<close> of the map is \<^verbatim>\<open>None\<close> or a dictionary that may hold the
  list \<^verbatim>\<open>points\<close>; of a point the program reads the entry \<^verbatim>\<open>text\<close> only, which is the
  identifier of a station.
\<close>

record 'a point =
  point_text :: "'a option"

record 'a click_data =
  points :: "'a point list option"

text \<open>\<^verbatim>\<open>ctx.triggered_id\<close>: the component of the first of the inputs whose change
  triggered the call (each given by its component and its property), \<^verbatim>\<open>None\<close> when there
  is none.\<close>

fun ctx_triggered_id :: "(string \<times> string) list \<Rightarrow> string option" where
  "ctx_triggered_id [] = None"
| "ctx_triggered_id ((component, property) # others) = Some component"

text \<open>
  The callback \<^verbatim>\<open>update_station_list\<close>. \<^verbatim>\<open>ctx.triggered_id\<close> is passed as the first
  argument; \<^verbatim>\<open>append\<close> changes the list it is given, which is the result.
\<close>

definition update_station_list ::
    "string option \<Rightarrow> 'a click_data option \<Rightarrow> nat \<Rightarrow> 'a list \<Rightarrow> error + 'a list" where
  "update_station_list triggered_id clickData reset_clicks selected_ids =
     (if triggered_id = Some ''reset-button'' then Inr []
      else
        (case clickData of
           None \<Rightarrow> Inr selected_ids
         | Some cd \<Rightarrow>
             (case points cd of
                None \<Rightarrow> Inr selected_ids
              | Some [] \<Rightarrow> Inl IndexError
              | Some (pt # pts) \<Rightarrow>
                  (case point_text pt of
                     None \<Rightarrow> Inl KeyError
                   | Some clicked_id \<Rightarrow>
                       Inr (if clicked_id \<notin> set selected_ids
                            then selected_ids @ [clicked_id] else selected_ids)))))"

text \<open>What the page sends when the marker labelled \<open>sid\<close> is clicked.\<close>

definition marker_click :: "'a \<Rightarrow> 'a click_data" where
  "marker_click sid = \<lparr>points = Some [\<lparr>point_text = Some sid\<rparr>]\<rparr>"

text \<open>A sequence of clicks on markers, the store of the selection passed from one call of
  the callback to the next.\<close>

fun clicks :: "'a list \<Rightarrow> nat \<Rightarrow> 'a list \<Rightarrow> error + 'a list" where
  "clicks [] n selected_ids = Inr selected_ids"
| "clicks (sid # sids) n selected_ids =
     (case update_station_list (Some ''station-map'') (Some (marker_click sid)) n selected_ids of
        Inl e \<Rightarrow> Inl e
      | Inr ids \<Rightarrow> clicks sids n ids)"


section \<open>The sort of the library\<close>

text \<open>
  \<^verbatim>\<open>sort_values("VALIDTIME")\<close> puts the rows in the order that numpy's \<^verbatim>\<open>argsort\<close> gives
  for the column with \<^verbatim>\<open>kind='quicksort'\<close>, the default of pandas. For a column of
  strings (an array of objects) that is the generic introsort of numpy
  (\<^verbatim>\<open>npy_aquicksort\<close>): segments of more than 17 entries are partitioned around the median
  of three, the larger part is put on a stack and the smaller one is partitioned on;
  shorter segments are sorted by insertion; a segment taken from the stack when the depth
  is used up is sorted by heapsort. The functions below follow it step by step; they work
  on the rows where the library works on the indices of the rows, and \<open>f\<close> is the key
  that is compared.
\<close>

definition swap_at :: "nat \<Rightarrow> nat \<Rightarrow> 'a list \<Rightarrow> 'a list" where
  "swap_at i j a = a[i := a ! j, j := a ! i]"

text \<open>Insertion: an entry moves left past the entries that are greater. The part that is
  sorted already is kept in reverse.\<close>

fun insert_right :: "('a \<Rightarrow> 'k::linorder) \<Rightarrow> 'a \<Rightarrow> 'a list \<Rightarrow> 'a list" where
  "insert_right f x [] = [x]"
| "insert_right f x (y # ys) = (if f x < f y then y # insert_right f x ys else x # y # ys)"

definition insertion_sort :: "('a \<Rightarrow> 'k::linorder) \<Rightarrow> 'a list \<Rightarrow> 'a list" where
  "insertion_sort f a = rev (fold (insert_right f) a [])"

text \<open>The median of the first, the middle and the last entry is put in the middle, the
  least of them first and the greatest last.\<close>

definition median_of_three :: "('a \<Rightarrow> 'k::linorder) \<Rightarrow> 'a list \<Rightarrow> 'a list" where
  "median_of_three f a =
     (let pr = length a - 1;
          pm = pr div 2;
          a1 = (if f (a ! pm) < f (a ! 0) then swap_at pm 0 a else a);
          a2 = (if f (a1 ! pr) < f (a1 ! pm) then swap_at pr pm a1 else a1)
      in if f (a2 ! pm) < f (a2 ! 0) then swap_at pm 0 a2 else a2)"

text \<open>\<^verbatim>\<open>do ++pi; while (a[pi] < vp && pi < pj)\<close> and
  \<^verbatim>\<open>do --pj; while (vp < a[pj] && pi < pj)\<close>.\<close>

function scan_up :: "('a \<Rightarrow> 'k::linorder) \<Rightarrow> 'a list \<Rightarrow> 'k \<Rightarrow> nat \<Rightarrow> nat \<Rightarrow> nat" where
  "scan_up f a vp j i =
     (if f (a ! (i + 1)) < vp \<and> i + 1 < j then scan_up f a vp j (i + 1) else i + 1)"
  by pat_completeness auto
termination
  by (relation "measure (\<lambda>(f, a, vp, j, i). j - i)") auto

function scan_down :: "('a \<Rightarrow> 'k::linorder) \<Rightarrow> 'a list \<Rightarrow> 'k \<Rightarrow> nat \<Rightarrow> nat \<Rightarrow> nat" where
  "scan_down f a vp i j =
     (if vp < f (a ! (j - 1)) \<and> i < j - 1 then scan_down f a vp i (j - 1) else j - 1)"
  by pat_completeness auto
termination
  by (relation "measure (\<lambda>(f, a, vp, i, j). j)") auto

declare scan_up.simps [simp del]
declare scan_down.simps [simp del]

text \<open>The loop of the partition: the two scans, and a swap of the entries where they stop,
  until the scans meet.\<close>

function hoare_loop ::
    "('a \<Rightarrow> 'k::linorder) \<Rightarrow> 'k \<Rightarrow> 'a list \<Rightarrow> nat \<Rightarrow> nat \<Rightarrow> 'a list \<times> nat" where
  "hoare_loop f vp a i j =
     (let i' = scan_up f a vp j i;
          j' = scan_down f a vp i' j
      in if i' \<ge> j' then (a, i') else hoare_loop f vp (swap_at i' j' a) i' j')"
  by pat_completeness auto
termination
proof (relation "measure (\<lambda>(f, vp, a, i, j). j - i)")
  show "wf (measure (\<lambda>(f, vp, a, i, j). j - i))" by simp
next
  fix f :: "'a \<Rightarrow> 'k::linorder" and vp :: 'k and a :: "'a list" and i j i' j' :: nat
  assume i': "i' = scan_up f a vp j i" and j': "j' = scan_down f a vp i' j" and lt: "\<not> j' \<le> i'"
  have up: "i0 < scan_up f a vp j0 i0" for i0 j0
  proof (induction f a vp j0 i0 rule: scan_up.induct)
    case (1 f a vp j0 i0)
    show ?case
    proof (cases "f (a ! (i0 + 1)) < vp \<and> i0 + 1 < j0")
      case True
      with 1 have "i0 + 1 < scan_up f a vp j0 (i0 + 1)" by simp
      with True show ?thesis by (subst scan_up.simps) simp
    next
      case False
      then show ?thesis by (subst scan_up.simps) auto
    qed
  qed
  have down: "scan_down f a vp i0 j0 \<le> j0 - 1" for i0 j0
  proof (induction f a vp i0 j0 rule: scan_down.induct)
    case (1 f a vp i0 j0)
    show ?case
    proof (cases "vp < f (a ! (j0 - 1)) \<and> i0 < j0 - 1")
      case True
      with 1 have "scan_down f a vp i0 (j0 - 1) \<le> j0 - 1 - 1" by simp
      with True show ?thesis by (subst scan_down.simps) simp
    next
      case False
      then show ?thesis by (subst scan_down.simps) auto
    qed
  qed
  from up [of i j] i' have "i < i'" by simp
  moreover from down [of i' j] j' have "j' \<le> j - 1" by simp
  ultimately show "((f, vp, swap_at i' j' a, i', j'), (f, vp, a, i, j))
      \<in> measure (\<lambda>(f, vp, a, i, j). j - i)"
    using lt by simp
qed

declare hoare_loop.simps [simp del]

text \<open>The partition of a segment: the median of three as the pivot, kept in the last place
  but one during the loop and put where the scans met. The result is the segment and the
  place of the pivot.\<close>

definition qs_partition :: "('a \<Rightarrow> 'k::linorder) \<Rightarrow> 'a list \<Rightarrow> 'a list \<times> nat" where
  "qs_partition f a =
     (let b = median_of_three f a;
          pr = length a - 1;
          pm = pr div 2;
          vp = f (b ! pm);
          c = swap_at pm (pr - 1) b;
          (d, i) = hoare_loop f vp c 0 (pr - 1)
      in (swap_at i (pr - 1) d, i))"

text \<open>Heapsort, as the library has it: the entries are counted from 1, and an entry sinks
  through a hole that moves down. \<open>a[k]\<close> of the library is \<open>a ! (k - 1)\<close> here.\<close>

function sift_down ::
    "('a \<Rightarrow> 'k::linorder) \<Rightarrow> 'a \<Rightarrow> nat \<Rightarrow> nat \<Rightarrow> nat \<Rightarrow> 'a list \<Rightarrow> 'a list" where
  "sift_down f tmp n i j a =
     (if 0 < j \<and> j \<le> n then
        (let j' = (if j < n \<and> f (a ! (j - 1)) < f (a ! j) then j + 1 else j)
         in if f tmp < f (a ! (j' - 1))
            then sift_down f tmp n j' (j' + j') (a[i - 1 := a ! (j' - 1)])
            else a[i - 1 := tmp])
      else a[i - 1 := tmp])"
  by pat_completeness auto
termination
  by (relation "measure (\<lambda>(f, tmp, n, i, j, a). n + 1 - j)") (auto split: if_splits)

declare sift_down.simps [simp del]

text \<open>\<^verbatim>\<open>for (l = n >> 1; l > 0; --l)\<close>: the heap is built from the middle down to the first
  entry.\<close>

fun build_heap :: "('a \<Rightarrow> 'k::linorder) \<Rightarrow> nat \<Rightarrow> nat \<Rightarrow> 'a list \<Rightarrow> 'a list" where
  "build_heap f n 0 a = a"
| "build_heap f n (Suc l) a = build_heap f n l (sift_down f (a ! l) n (Suc l) (2 * Suc l) a)"

text \<open>\<^verbatim>\<open>for (; n > 1;)\<close>: the greatest entry goes to the end, and the entry that was there
  sinks from the top of the heap that is left.\<close>

fun sort_heap :: "('a \<Rightarrow> 'k::linorder) \<Rightarrow> nat \<Rightarrow> 'a list \<Rightarrow> 'a list" where
  "sort_heap f 0 a = a"
| "sort_heap f (Suc 0) a = a"
| "sort_heap f (Suc (Suc n)) a =
     sort_heap f (Suc n) (sift_down f (a ! Suc n) (Suc n) 1 2 (a[Suc n := a ! 0]))"

definition heapsort :: "('a \<Rightarrow> 'k::linorder) \<Rightarrow> 'a list \<Rightarrow> 'a list" where
  "heapsort f a = sort_heap f (length a) (build_heap f (length a) (length a div 2) a)"

text \<open>\<^verbatim>\<open>npy_get_msb\<close>: the number of times that a number can be halved before it is 0,
  less one.\<close>

function msb :: "nat \<Rightarrow> nat" where
  "msb n = (if n div 2 = 0 then 0 else Suc (msb (n div 2)))"
  by pat_completeness auto
termination
  by (relation "measure (\<lambda>n. n)") auto

declare msb.simps [simp del]

text \<open>
  The sort of a segment. What the library does with its stack is the recursion here: the
  part that it goes on with is sorted with \<open>popped = False\<close>, the part that it takes from
  the stack later with \<open>popped = True\<close>, and only the latter looks at the depth. The parts
  do not overlap, so the order in which they are sorted does not matter.
\<close>

function introsort :: "('a \<Rightarrow> 'k::linorder) \<Rightarrow> bool \<Rightarrow> int \<Rightarrow> 'a list \<Rightarrow> 'a list" where
  "introsort f popped cdepth a =
     (if popped \<and> cdepth < 0 then heapsort f a
      else if 16 < length a - 1 then
        (let (b, i) = qs_partition f a
         in if i < length a - 1 - i
            then introsort f False (cdepth - 1) (take i b) @ [b ! i]
                   @ introsort f True (cdepth - 1) (drop (i + 1) b)
            else introsort f True (cdepth - 1) (take i b) @ [b ! i]
                   @ introsort f False (cdepth - 1) (drop (i + 1) b))
      else insertion_sort f a)"
  by pat_completeness auto

termination
proof -
  have up: "i < j \<Longrightarrow> scan_up f a vp j i \<le> j"
    for f :: "'a \<Rightarrow> 'k::linorder" and a vp i j
  proof (induction f a vp j i rule: scan_up.induct)
    case (1 f a vp j i)
    show ?case
    proof (cases "f (a ! (i + 1)) < vp \<and> i + 1 < j")
      case True
      with 1 have "scan_up f a vp j (i + 1) \<le> j" by simp
      with True show ?thesis by (subst scan_up.simps) simp
    next
      case False
      with 1 show ?thesis by (subst scan_up.simps) auto
    qed
  qed
  have down: "scan_down f a vp i j \<le> j - 1"
    for f :: "'a \<Rightarrow> 'k::linorder" and a vp i j
  proof (induction f a vp i j rule: scan_down.induct)
    case (1 f a vp i j)
    show ?case
    proof (cases "vp < f (a ! (j - 1)) \<and> i < j - 1")
      case True
      with 1 have "scan_down f a vp i (j - 1) \<le> j - 1 - 1" by simp
      with True show ?thesis by (subst scan_down.simps) simp
    next
      case False
      then show ?thesis by (subst scan_down.simps) auto
    qed
  qed
  have loop: "i < j \<Longrightarrow> hoare_loop f vp a i j = (b, k) \<Longrightarrow> k \<le> j \<and> length b = length a"
    for f :: "'a \<Rightarrow> 'k::linorder" and vp a i j b k
  proof (induction f vp a i j rule: hoare_loop.induct)
    case (1 f vp a i j)
    let ?i = "scan_up f a vp j i"
    let ?j = "scan_down f a vp ?i j"
    show ?case
    proof (cases "?j \<le> ?i")
      case True
      with "1.prems"(2) have "b = a" and "k = ?i"
        by (auto simp add: hoare_loop.simps [of f vp a i j] Let_def)
      with up [OF "1.prems"(1)] show ?thesis by simp
    next
      case False
      with "1.prems"(2) have rec: "hoare_loop f vp (swap_at ?i ?j a) ?i ?j = (b, k)"
        by (simp add: hoare_loop.simps [of f vp a i j] Let_def)
      from False have "?i < ?j" by simp
      from "1.IH" [OF refl refl False this rec]
      have "k \<le> ?j" and "length b = length a" by (simp_all add: swap_at_def)
      moreover have "?j \<le> j - 1" by (rule down)
      ultimately show ?thesis by simp
    qed
  qed
  have part: "16 < length a - 1 \<Longrightarrow> (b, i) = qs_partition f a \<Longrightarrow>
      length b = length a \<and> i < length a - 1"
    for f :: "'a \<Rightarrow> 'k::linorder" and a b i
  proof -
    assume long: "16 < length a - 1" and p: "(b, i) = qs_partition f a"
    let ?b = "median_of_three f a"
    let ?pr = "length a - 1"
    let ?c = "swap_at (?pr div 2) (?pr - 1) ?b"
    obtain d k where l: "hoare_loop f (f (?b ! (?pr div 2))) ?c 0 (?pr - 1) = (d, k)"
      by (cases "hoare_loop f (f (?b ! (?pr div 2))) ?c 0 (?pr - 1)")
    from long have "0 < ?pr - 1" by simp
    from loop [OF this l] have "k \<le> ?pr - 1" and "length d = length ?c" by simp_all
    moreover have "length ?c = length a"
      by (simp add: swap_at_def median_of_three_def Let_def)
    moreover from p l have "b = swap_at k (?pr - 1) d" and "i = k"
      by (simp_all add: qs_partition_def Let_def)
    ultimately show ?thesis using long by (simp add: swap_at_def)
  qed
  have part': "length b - Suc i < length a \<and> min (length b) i < length a"
    if "16 < length a - Suc 0" and "(b, i) = qs_partition f a"
    for f :: "'a \<Rightarrow> 'k::linorder" and a b i
  proof -
    from that(1) have "16 < length a - 1" by simp
    from part [OF this that(2)] show ?thesis by auto
  qed
  show ?thesis
    by (relation "measure (\<lambda>(f, popped, cdepth, a). length a)") (auto dest: part')
qed

declare introsort.simps [simp del]

text \<open>The sort of a whole column starts with twice \<open>msb\<close> of the length as the depth.\<close>

definition npy_aquicksort :: "('a \<Rightarrow> 'k::linorder) \<Rightarrow> 'a list \<Rightarrow> 'a list" where
  "npy_aquicksort f a = introsort f True (int (2 * msb (length a))) a"


section \<open>The time series\<close>

definition cases :: "(string \<times> string \<times> string) list" where
  "cases =
     [(''Case 1: 2025/01/29 - 2025/02/02'', ''2025-01-29'', ''2025-02-02''),
      (''Case 2: 2025/02/13 - 2025/02/15'', ''2025-02-13'', ''2025-02-15''),
      (''Case 3: 2025/02/18 - 2025/02/20'', ''2025-02-18'', ''2025-02-20''),
      (''Case 4: 2025/03/13 - 2025/03/18'', ''2025-03-13'', ''2025-03-18''),
      (''Case 5: 2025/03/25 - 2025/03/28'', ''2025-03-25'', ''2025-03-28'')]"

text \<open>The sort of the rows of a station by their times, as the library does it.\<close>

definition sort_values_VALIDTIME :: "obs_row list \<Rightarrow> obs_row list" where
  "sort_values_VALIDTIME = npy_aquicksort VALIDTIME"

text \<open>The four statements on \<^verbatim>\<open>site_df\<close> in the loop of \<^verbatim>\<open>update_timeseries\<close>; the sort
  is an argument, which is \<open>sort_values_VALIDTIME\<close> in the program.\<close>

definition site_df ::
    "(obs_row list \<Rightarrow> obs_row list) \<Rightarrow> obs_row list \<Rightarrow> ident \<Rightarrow> string \<Rightarrow> string \<Rightarrow> obs_row list"
  where
  "site_df sort_values data point_id start_date end_date =
     sort_values
       (filter (\<lambda>r. 0 \<le> ft r \<and> ft r \<le> 23)
          (filter (\<lambda>r. start_date \<le> VALIDTIME r \<and> VALIDTIME r \<le> end_date)
             (filter (\<lambda>r. ID r = point_id) data)))"

text \<open>An identifier as a text, as an f-string prints it.\<close>

function str_nat :: "nat \<Rightarrow> string" where
  "str_nat n = (if n < 10 then [''0123456789'' ! n]
                else str_nat (n div 10) @ [''0123456789'' ! (n mod 10)])"
  by pat_completeness auto
termination
  by (relation "measure (\<lambda>n. n)") auto

declare str_nat.simps [simp del]

fun str_of_id :: "ident \<Rightarrow> string" where
  "str_of_id (Str_id s) = s"
| "str_of_id (Int_id n) = (if n < 0 then CHR ''-'' # str_nat (nat (- n)) else str_nat (nat n))"

text \<open>The figure of one station: a title alone when there is no row, or the three lines over
  the times of the rows and the two horizontal lines at 20 and 25 from the least to the
  greatest time.\<close>

record series =
  x0 :: string
  x1 :: string
  series_x :: "string list"
  obs_y :: "cell list"
  wt_y :: "cell list"
  arc_y :: "cell list"
  thresholds :: "nat list"

datatype chart = No_data string | Lines string series

fun least :: "string list \<Rightarrow> string" where
  "least [] = []"
| "least (t # ts) = fold min ts t"

fun greatest :: "string list \<Rightarrow> string" where
  "greatest [] = []"
| "greatest (t # ts) = fold max ts t"

definition site_chart :: "ident \<Rightarrow> string \<Rightarrow> obs_row list \<Rightarrow> chart" where
  "site_chart point_id selected_case site =
     (if site = []
      then No_data (''No data for '' @ str_of_id point_id @ '' during '' @ selected_case)
      else Lines (str_of_id point_id)
             \<lparr>x0 = least (map VALIDTIME site), x1 = greatest (map VALIDTIME site),
              series_x = map VALIDTIME site,
              obs_y = map ObsGustSpd1h site,
              wt_y = map wt_operation site,
              arc_y = map arc_gust_pred site,
              thresholds = [20, 25]\<rparr>)"

text \<open>The children of the container: the request to choose a station (a text in Japanese in
  the program), or one figure for every selected station.\<close>

datatype children = Choose_a_station | Graphs "chart list"

definition update_timeseries ::
    "(obs_row list \<Rightarrow> obs_row list) \<Rightarrow> module \<Rightarrow> ident list \<Rightarrow> string \<Rightarrow> error + children"
  where
  "update_timeseries sort_values m station_ids selected_case =
     (if station_ids = [] then Inr Choose_a_station
      else
        (case map_of cases selected_case of
           None \<Rightarrow> Inl KeyError
         | Some (start_date, end_date) \<Rightarrow>
             Inr (Graphs (map (\<lambda>point_id.
                    site_chart point_id selected_case
                      (site_df sort_values (data_df m) point_id start_date end_date))
                  station_ids))))"

text \<open>The three filters of the loop as one condition on a row.\<close>

definition passes_filters :: "ident \<Rightarrow> string \<Rightarrow> string \<Rightarrow> obs_row \<Rightarrow> bool" where
  "passes_filters point_id start_date end_date r \<longleftrightarrow>
     ID r = point_id \<and> start_date \<le> VALIDTIME r \<and> VALIDTIME r \<le> end_date \<and>
     0 \<le> ft r \<and> ft r \<le> 23"

text \<open>
  The words of the specification for the rows of a chart: the rows of the station whose
  time is on a day from the first to the last date of the window, both included, and
  whose forecast hour is from 0 to 23. The date of a time written year, month, day and then
  the time of day is its first ten characters.
\<close>

definition date_of :: "string \<Rightarrow> string" where
  "date_of t = take 10 t"

definition in_case_window :: "ident \<Rightarrow> string \<Rightarrow> string \<Rightarrow> obs_row \<Rightarrow> bool" where
  "in_case_window point_id start_date end_date r \<longleftrightarrow>
     ID r = point_id \<and> start_date \<le> date_of (VALIDTIME r) \<and> date_of (VALIDTIME r) \<le> end_date \<and>
     0 \<le> ft r \<and> ft r \<le> 23"


section \<open>The page and its events\<close>

text \<open>The properties of the components that the callbacks read and write.\<close>

record page =
  station_map_figure :: figure
  station_map_clickData :: "ident click_data option"
  station_map_relayoutData :: "dict option"
  map_state :: "dict option"
  selected_station_ids :: "ident list"
  reset_button_n_clicks :: nat
  case_selector_value :: string
  timeseries_children :: children

datatype event =
    MarkerClicked "ident click_data"
  | ResetClicked
  | ViewportChanged dict
  | CaseWindowChanged string

text \<open>
  The callbacks as the decorators wire them: each is called with the properties named as
  its inputs and states, and its result is written to the property named as its output.
  A change of the store of the selection calls \<^verbatim>\<open>update_map_figure\<close> and
  \<^verbatim>\<open>update_timeseries\<close>; nothing listens to the store of the viewport. A callback that
  raises writes nothing, and nothing follows from it.
\<close>

definition run_update_map_figure :: "module \<Rightarrow> page \<Rightarrow> page" where
  "run_update_map_figure m pg =
     (case update_map_figure m (selected_station_ids pg) (map_state pg) of
        Inl e \<Rightarrow> pg
      | Inr fig \<Rightarrow> pg\<lparr>station_map_figure := fig\<rparr>)"

definition run_save_map_state :: "module \<Rightarrow> page \<Rightarrow> page" where
  "run_save_map_state m pg =
     pg\<lparr>map_state := save_map_state m (station_map_relayoutData pg) (map_state pg)\<rparr>"

definition run_update_timeseries ::
    "(obs_row list \<Rightarrow> obs_row list) \<Rightarrow> module \<Rightarrow> page \<Rightarrow> page" where
  "run_update_timeseries sort_values m pg =
     (case update_timeseries sort_values m (selected_station_ids pg) (case_selector_value pg) of
        Inl e \<Rightarrow> pg
      | Inr ch \<Rightarrow> pg\<lparr>timeseries_children := ch\<rparr>)"

text \<open>\<open>triggered\<close> lists the inputs of the callback whose change triggered the call.\<close>

definition run_update_station_list ::
    "(obs_row list \<Rightarrow> obs_row list) \<Rightarrow> module \<Rightarrow> (string \<times> string) list \<Rightarrow> page \<Rightarrow> page" where
  "run_update_station_list sort_values m triggered pg =
     (case update_station_list (ctx_triggered_id triggered) (station_map_clickData pg)
             (reset_button_n_clicks pg) (selected_station_ids pg) of
        Inl e \<Rightarrow> pg
      | Inr ids \<Rightarrow>
          run_update_timeseries sort_values m
            (run_update_map_figure m (pg\<lparr>selected_station_ids := ids\<rparr>)))"

text \<open>One event of the user, and the callbacks that follow from it.\<close>

fun tick :: "(obs_row list \<Rightarrow> obs_row list) \<Rightarrow> module \<Rightarrow> event \<Rightarrow> page \<Rightarrow> page" where
  "tick sort_values m (MarkerClicked cd) pg =
     run_update_station_list sort_values m [(''station-map'', ''clickData'')]
       (pg\<lparr>station_map_clickData := Some cd\<rparr>)"
| "tick sort_values m ResetClicked pg =
     run_update_station_list sort_values m [(''reset-button'', ''n_clicks'')]
       (pg\<lparr>reset_button_n_clicks := reset_button_n_clicks pg + 1\<rparr>)"
| "tick sort_values m (ViewportChanged rd) pg =
     run_save_map_state m (pg\<lparr>station_map_relayoutData := Some rd\<rparr>)"
| "tick sort_values m (CaseWindowChanged label) pg =
     run_update_timeseries sort_values m (pg\<lparr>case_selector_value := label\<rparr>)"

fun ticks :: "(obs_row list \<Rightarrow> obs_row list) \<Rightarrow> module \<Rightarrow> event list \<Rightarrow> page \<Rightarrow> page" where
  "ticks sort_values m [] pg = pg"
| "ticks sort_values m (e # es) pg = ticks sort_values m es (tick sort_values m e pg)"

fun is_viewport_event :: "event \<Rightarrow> bool" where
  "is_viewport_event (ViewportChanged rd) = True"
| "is_viewport_event e = False"


section \<open>Tables and pages for the examples\<close>

text \<open>A module with two stations, and a page to start from.\<close>

definition two_stations :: module where
  "two_stations =
     \<lparr>loc_df = [\<lparr>ID = Str_id ''A'', LATD = Float 32, LOND = Float 100\<rparr>,
                \<lparr>ID = Str_id ''B'', LATD = Float 50, LOND = Float 144\<rparr>],
      data_df = [], plot_df = [], high_freq_df = [], low_freq_df = []\<rparr>"

definition panned :: dict where
  "panned = [(''zoom'', JNum (Float 9)),
             (''center'', JDict [(''lat'', JNum (Float 35)), (''lon'', JNum (Float 139))])]"

definition some_page :: page where
  "some_page =
     \<lparr>station_map_figure = create_map two_stations [],
      station_map_clickData = None,
      station_map_relayoutData = None,
      map_state = Some panned,
      selected_station_ids = [],
      reset_button_n_clicks = 0,
      case_selector_value = ''Case 1: 2025/01/29 - 2025/02/02'',
      timeseries_children = Choose_a_station\<rparr>"

text \<open>The words of the specification for the default centre, and the mean that the program
  takes.\<close>

definition geometric_mean :: "real list \<Rightarrow> real" where
  "geometric_mean xs = root (length xs) (prod_list xs)"

definition arithmetic_mean :: "real list \<Rightarrow> real" where
  "arithmetic_mean xs = sum_list xs / real (length xs)"

text \<open>A table of locations that has station \<open>A\<close> only, and the module loaded from it and
  the two clean rows: station \<open>B\<close> has frequencies and no location.\<close>

definition only_A :: "loc_row list" where
  "only_A = [\<lparr>ID = Str_id ''A'', LATD = Float 32, LOND = Float 100\<rparr>]"

definition freq_B :: freq_row where
  "freq_B = \<lparr>ID = Str_id ''B'', obs_freq = Float 0, wt_freq = Float 0, arc_freq = Float 0\<rparr>"

definition orphan_module :: module where
  "orphan_module =
     \<lparr>loc_df = only_A, data_df = clean_rows,
      plot_df =
        [\<lparr>ID = Str_id ''A'', obs_freq = Float 1, wt_freq = Float 0, arc_freq = Float 0,
          plot_LATD = Float 32, plot_LOND = Float 100\<rparr>,
         \<lparr>ID = Str_id ''B'', obs_freq = Float 0, wt_freq = Float 0, arc_freq = Float 0,
          plot_LATD = NaN, plot_LOND = NaN\<rparr>],
      high_freq_df =
        [\<lparr>ID = Str_id ''A'', obs_freq = Float 1, wt_freq = Float 0, arc_freq = Float 0,
          plot_LATD = Float 32, plot_LOND = Float 100\<rparr>],
      low_freq_df =
        [\<lparr>ID = Str_id ''B'', obs_freq = Float 0, wt_freq = Float 0, arc_freq = Float 0,
          plot_LATD = NaN, plot_LOND = NaN\<rparr>]\<rparr>"

text \<open>Rows of a station by time and forecast hour; the signals do not matter here.\<close>

definition row_at :: "string \<Rightarrow> string \<Rightarrow> int \<Rightarrow> obs_row" where
  "row_at sid t h =
     \<lparr>ID = Str_id sid, VALIDTIME = t, ft = h, ObsGustSpd1h = Numeric (Float 10),
      wt_operation = Numeric (Float 10), arc_gust_pred = Numeric (Float 10)\<rparr>"

text \<open>A module whose only observation is of the last day of the second case.\<close>

definition last_day :: module where
  "last_day =
     \<lparr>loc_df = [], data_df = [row_at ''X'' ''2025-02-15 03:00'' 3],
      plot_df = [], high_freq_df = [], low_freq_df = []\<rparr>"





section \<open>Properties of the frequencies\<close>

lemma series_ge_25_numeric:
  "\<forall>c\<in>set cs. is_number c \<Longrightarrow> series_ge_25 cs = Inr (map crosses cs)"
proof (induction cs)
  case Nil
  show ?case by simp
next
  case (Cons c cs)
  then have rest: "series_ge_25 cs = Inr (map crosses cs)" by simp
  from Cons.prems have "is_number c" by simp
  then obtain v where c: "c = Numeric v" by (cases c) auto
  show ?case by (cases v) (simp_all add: c rest)
qed

lemma series_ge_25_text:
  "Text s \<in> set cs \<Longrightarrow> series_ge_25 cs = Inl TypeError"
proof (induction cs)
  case Nil
  then show ?case by simp
next
  case (Cons c cs)
  show ?case
  proof (cases c rule: ge_25.cases)
    case (3 t)
    then show ?thesis by simp
  next
    case (1 x)
    with Cons show ?thesis by simp
  next
    case 2
    with Cons show ?thesis by simp
  qed
qed

lemma series_ge_25_error: "series_ge_25 cs = Inl e \<Longrightarrow> e = TypeError"
proof (induction cs arbitrary: e)
  case Nil
  then show ?case by simp
next
  case (Cons c cs)
  then show ?case
    by (cases c rule: ge_25.cases) (auto split: sum.splits)
qed

lemma calc_freq_numeric:
  assumes "\<forall>r\<in>set g. is_number (column r)" and "g \<noteq> []"
  shows "calc_freq g column = Inr (Float (crossing_ratio g column))"
proof -
  have "series_ge_25 (map column g) = Inr (map crosses (map column g))"
    using assms(1) by (intro series_ge_25_numeric) simp
  moreover have "length (filter (\<lambda>b. b) (map crosses (map column g)))
      = length (filter (\<lambda>r. crosses (column r)) g)"
    by (simp add: filter_map comp_def)
  ultimately show ?thesis
    using assms(2) by (simp add: calc_freq_def crossing_ratio_def)
qed

lemma freq_series_numeric:
  assumes "\<forall>r\<in>set data. numeric_row r" and "get_group data k \<noteq> []"
  shows "freq_series k (get_group data k) = Inr (freq_of data k)"
proof -
  have sub: "set (get_group data k) \<subseteq> set data" by (auto simp: get_group_def)
  have "calc_freq (get_group data k) ObsGustSpd1h
      = Inr (Float (crossing_ratio (get_group data k) ObsGustSpd1h))"
    using assms sub by (intro calc_freq_numeric) (auto simp: numeric_row_def)
  moreover have "calc_freq (get_group data k) wt_operation
      = Inr (Float (crossing_ratio (get_group data k) wt_operation))"
    using assms sub by (intro calc_freq_numeric) (auto simp: numeric_row_def)
  moreover have "calc_freq (get_group data k) arc_gust_pred
      = Inr (Float (crossing_ratio (get_group data k) arc_gust_pred))"
    using assms sub by (intro calc_freq_numeric) (auto simp: numeric_row_def)
  ultimately show ?thesis by (simp add: freq_series_def freq_of_def)
qed

lemma get_group_nonempty: "k \<in> ID ` set data \<Longrightarrow> get_group data k \<noteq> []"
proof -
  assume "k \<in> ID ` set data"
  then obtain r where "r \<in> set data" and "ID r = k" by auto
  then have "r \<in> set (get_group data k)" by (simp add: get_group_def)
  then show ?thesis by auto
qed

lemma apply_groups_numeric:
  assumes "\<forall>r\<in>set data. numeric_row r" and "set ks \<subseteq> ID ` set data"
  shows "apply_groups data ks = Inr (map (freq_of data) ks)"
  using assms(2)
proof (induction ks)
  case Nil
  show ?case by simp
next
  case (Cons k ks)
  then have "k \<in> ID ` set data" by simp
  then have "get_group data k \<noteq> []" by (rule get_group_nonempty)
  with assms(1) have "freq_series k (get_group data k) = Inr (freq_of data k)"
    by (rule freq_series_numeric)
  moreover from Cons have "apply_groups data ks = Inr (map (freq_of data) ks)" by simp
  ultimately show ?case by simp
qed

lemma set_group_keys: "set (group_keys data) = ID ` set data"
  by (simp add: group_keys_def)

lemma distinct_group_keys: "distinct (group_keys data)"
  by (simp add: group_keys_def)

lemma freq_df_numeric:
  assumes "\<forall>r\<in>set data. numeric_row r"
  shows "freq_df data = Inr (map (freq_of data) (group_keys data))"
  unfolding freq_df_def using assms by (intro apply_groups_numeric) (simp_all add: set_group_keys)

lemma ID_freq_of: "ID (freq_of data k) = k"
  by (simp add: freq_of_def)

lemma map_ID_freq_of: "map ID (map (freq_of data) ks) = ks"
  by (induction ks) (simp_all add: ID_freq_of)

lemma crossing_ratio_get_group:
  "crossing_ratio (get_group data k) column =
     real (length (filter (\<lambda>r. ID r = k \<and> crosses (column r)) data))
       / real (length (filter (\<lambda>r. ID r = k) data))"
  by (simp add: crossing_ratio_def get_group_def)

text \<open>
  C4. When every signal cell is a number (or \<open>NaN\<close>), the frequency table is computed, it
  has exactly one row for every station that has at least one observation row, and each of
  the three frequencies of a station is the number of the rows of the table that have its
  id and a signal of at least 25, over the number of the rows of the table that have its
  id. A station with 10 rows of which 3 have an observed gust of at least 25 has
  \<open>obs_freq = 0.3\<close>.
\<close>

theorem freq_df_is_crossing_ratio:
  assumes "\<forall>r\<in>set data. numeric_row r"
  shows "\<exists>fs. freq_df data = Inr fs \<and> distinct (map ID fs) \<and> set (map ID fs) = ID ` set data \<and>
    (\<forall>f\<in>set fs.
       obs_freq f =
         Float (real (length (filter (\<lambda>r. ID r = ID f \<and> crosses (ObsGustSpd1h r)) data))
                / real (length (filter (\<lambda>r. ID r = ID f) data))) \<and>
       wt_freq f =
         Float (real (length (filter (\<lambda>r. ID r = ID f \<and> crosses (wt_operation r)) data))
                / real (length (filter (\<lambda>r. ID r = ID f) data))) \<and>
       arc_freq f =
         Float (real (length (filter (\<lambda>r. ID r = ID f \<and> crosses (arc_gust_pred r)) data))
                / real (length (filter (\<lambda>r. ID r = ID f) data))) \<and>
       (length (filter (\<lambda>r. ID r = ID f) data) = 10 \<and>
        length (filter (\<lambda>r. ID r = ID f \<and> crosses (ObsGustSpd1h r)) data) = 3
          \<longrightarrow> obs_freq f = Float 0.3))"
proof -
  let ?fs = "map (freq_of data) (group_keys data)"
  have run: "freq_df data = Inr ?fs" using assms by (rule freq_df_numeric)
  have ids: "map ID ?fs = group_keys data" by (rule map_ID_freq_of)
  have each: "obs_freq f =
         Float (real (length (filter (\<lambda>r. ID r = ID f \<and> crosses (ObsGustSpd1h r)) data))
                / real (length (filter (\<lambda>r. ID r = ID f) data))) \<and>
       wt_freq f =
         Float (real (length (filter (\<lambda>r. ID r = ID f \<and> crosses (wt_operation r)) data))
                / real (length (filter (\<lambda>r. ID r = ID f) data))) \<and>
       arc_freq f =
         Float (real (length (filter (\<lambda>r. ID r = ID f \<and> crosses (arc_gust_pred r)) data))
                / real (length (filter (\<lambda>r. ID r = ID f) data))) \<and>
       (length (filter (\<lambda>r. ID r = ID f) data) = 10 \<and>
        length (filter (\<lambda>r. ID r = ID f \<and> crosses (ObsGustSpd1h r)) data) = 3
          \<longrightarrow> obs_freq f = Float 0.3)" if "f \<in> set ?fs" for f
  proof -
    from that obtain k where f: "f = freq_of data k" by auto
    show ?thesis by (simp add: f freq_of_def crossing_ratio_get_group)
  qed
  have "distinct (map ID ?fs)" by (simp only: ids distinct_group_keys)
  moreover have "set (map ID ?fs) = ID ` set data" by (simp only: ids set_group_keys)
  ultimately show ?thesis using run each by blast
qed

theorem freq_df_is_crossing_ratio_witness:
  "freq_df two_station_rows =
     Inr [\<lparr>ID = Str_id ''X'', obs_freq = Float 0.3, wt_freq = Float 0.5, arc_freq = Float 0\<rparr>,
          \<lparr>ID = Str_id ''Y'', obs_freq = Float 0.25, wt_freq = Float 1, arc_freq = Float 0\<rparr>]"
proof -
  let ?X = "Str_id ''X''" and ?Y = "Str_id ''Y''"
  have num: "\<forall>r\<in>set two_station_rows. numeric_row r"
    by (simp add: two_station_rows_def numeric_row_def obs_def)
  have keys: "group_keys two_station_rows = [?X, ?Y]"
    by (simp add: group_keys_def two_station_rows_def obs_def)
  have lenX: "length (filter (\<lambda>r. ID r = ?X) two_station_rows) = 10"
    and lenY: "length (filter (\<lambda>r. ID r = ?Y) two_station_rows) = 4"
    and obsX: "length (filter (\<lambda>r. ID r = ?X \<and> crosses (ObsGustSpd1h r)) two_station_rows) = 3"
    and obsY: "length (filter (\<lambda>r. ID r = ?Y \<and> crosses (ObsGustSpd1h r)) two_station_rows) = 1"
    and wtX: "length (filter (\<lambda>r. ID r = ?X \<and> crosses (wt_operation r)) two_station_rows) = 5"
    and wtY: "length (filter (\<lambda>r. ID r = ?Y \<and> crosses (wt_operation r)) two_station_rows) = 4"
    and arcX: "length (filter (\<lambda>r. ID r = ?X \<and> crosses (arc_gust_pred r)) two_station_rows) = 0"
    and arcY: "length (filter (\<lambda>r. ID r = ?Y \<and> crosses (arc_gust_pred r)) two_station_rows) = 0"
    by (simp_all add: two_station_rows_def obs_def)
  from freq_df_is_crossing_ratio [OF num] obtain fs where
    run: "freq_df two_station_rows = Inr fs"
    and each: "\<forall>f\<in>set fs.
       obs_freq f =
         Float (real (length (filter (\<lambda>r. ID r = ID f \<and> crosses (ObsGustSpd1h r)) two_station_rows))
                / real (length (filter (\<lambda>r. ID r = ID f) two_station_rows))) \<and>
       wt_freq f =
         Float (real (length (filter (\<lambda>r. ID r = ID f \<and> crosses (wt_operation r)) two_station_rows))
                / real (length (filter (\<lambda>r. ID r = ID f) two_station_rows))) \<and>
       arc_freq f =
         Float (real (length (filter (\<lambda>r. ID r = ID f \<and> crosses (arc_gust_pred r)) two_station_rows))
                / real (length (filter (\<lambda>r. ID r = ID f) two_station_rows))) \<and>
       (length (filter (\<lambda>r. ID r = ID f) two_station_rows) = 10 \<and>
        length (filter (\<lambda>r. ID r = ID f \<and> crosses (ObsGustSpd1h r)) two_station_rows) = 3
          \<longrightarrow> obs_freq f = Float 0.3)"
    by blast
  from run have "apply_groups two_station_rows [?X, ?Y] = Inr fs"
    by (simp add: freq_df_def keys)
  then have "map ID fs = [?X, ?Y]"
    by (auto split: sum.splits simp: freq_series_def)
  then obtain fx fy where fs: "fs = [fx, fy]" and ix: "ID fx = ?X" and iy: "ID fy = ?Y"
    by (cases fs; cases "tl fs") auto
  from each fs ix lenX obsX wtX arcX
  have x: "obs_freq fx = Float 0.3" "wt_freq fx = Float 0.5" "arc_freq fx = Float 0"
    by simp_all
  from each fs iy lenY obsY wtY arcY
  have y: "obs_freq fy = Float 0.25" "wt_freq fy = Float 1" "arc_freq fy = Float 0"
    by simp_all
  from x ix have "fx = \<lparr>ID = ?X, obs_freq = Float 0.3, wt_freq = Float 0.5, arc_freq = Float 0\<rparr>"
    by (cases fx) simp
  moreover
  from y iy have "fy = \<lparr>ID = ?Y, obs_freq = Float 0.25, wt_freq = Float 1, arc_freq = Float 0\<rparr>"
    by (cases fy) simp
  ultimately show ?thesis using run fs by simp
qed


section \<open>Rows with a missing or a textual signal\<close>

lemma calc_freq_error: "calc_freq g column = Inl e \<Longrightarrow> e = TypeError"
  by (auto simp: calc_freq_def split: sum.splits dest: series_ge_25_error)

lemma calc_freq_text:
  assumes "r \<in> set g" and "column r = Text s"
  shows "calc_freq g column = Inl TypeError"
proof -
  from assms have "Text s \<in> set (map column g)" by force
  then have "series_ge_25 (map column g) = Inl TypeError" by (rule series_ge_25_text)
  then show ?thesis by (simp add: calc_freq_def)
qed

lemma freq_series_error: "freq_series k g = Inl e \<Longrightarrow> e = TypeError"
  by (auto simp: freq_series_def split: sum.splits dest: calc_freq_error)

lemma freq_series_text:
  assumes "r \<in> set g" and "\<not> numeric_row r"
  shows "freq_series k g = Inl TypeError"
proof -
  from assms(2) consider
      (obs) s where "ObsGustSpd1h r = Text s"
    | (wt) s where "wt_operation r = Text s"
    | (arc) s where "arc_gust_pred r = Text s"
    unfolding numeric_row_def
    by (metis is_number.elims(3))
  then have "calc_freq g ObsGustSpd1h = Inl TypeError \<or> calc_freq g wt_operation = Inl TypeError
      \<or> calc_freq g arc_gust_pred = Inl TypeError"
    using assms(1) by cases (simp_all add: calc_freq_text)
  then show ?thesis
    by (auto simp: freq_series_def split: sum.splits dest: calc_freq_error)
qed

lemma apply_groups_error: "apply_groups data ks = Inl e \<Longrightarrow> e = TypeError"
  by (induction ks arbitrary: e) (auto split: sum.splits dest: freq_series_error)

lemma apply_groups_text:
  assumes "k \<in> set ks" and "freq_series k (get_group data k) = Inl TypeError"
  shows "apply_groups data ks = Inl TypeError"
  using assms(1)
proof (induction ks)
  case Nil
  then show ?case by simp
next
  case (Cons j ks)
  show ?case
  proof (cases "freq_series j (get_group data j)")
    case (Inl e)
    then show ?thesis by (simp add: freq_series_error)
  next
    case (Inr f)
    with assms(2) have "j \<noteq> k" by auto
    with Cons have "apply_groups data ks = Inl TypeError" by simp
    with Inr show ?thesis by simp
  qed
qed

lemma freq_df_text:
  assumes "r \<in> set data" and "\<not> numeric_row r"
  shows "freq_df data = Inl TypeError"
proof -
  from assms(1) have "r \<in> set (get_group data (ID r))" by (simp add: get_group_def)
  then have "freq_series (ID r) (get_group data (ID r)) = Inl TypeError"
    using assms(2) by (rule freq_series_text)
  moreover from assms(1) have "ID r \<in> set (group_keys data)" by (simp add: set_group_keys)
  ultimately show ?thesis unfolding freq_df_def by (rule apply_groups_text [rotated])
qed

lemma get_group_insert_other:
  "k \<noteq> ID r \<Longrightarrow> get_group (xs @ r # ys) k = get_group (xs @ ys) k"
  by (simp add: get_group_def)

lemma freq_of_insert_other:
  "k \<noteq> ID r \<Longrightarrow> freq_of (xs @ r # ys) k = freq_of (xs @ ys) k"
  by (simp add: freq_of_def get_group_insert_other)

lemma group_keys_insert_other:
  "filter (\<lambda>k. k \<noteq> ID r) (group_keys (xs @ r # ys)) =
   filter (\<lambda>k. k \<noteq> ID r) (group_keys (xs @ ys))"
proof -
  have "filter (\<lambda>k. k \<noteq> ID r) (map ID (xs @ r # ys)) =
        filter (\<lambda>k. k \<noteq> ID r) (map ID (xs @ ys))"
    by simp
  then have "filter (\<lambda>k. k \<noteq> ID r) (remdups (map ID (xs @ r # ys))) =
        filter (\<lambda>k. k \<noteq> ID r) (remdups (map ID (xs @ ys)))"
    by (simp only: remdups_filter [symmetric])
  then show ?thesis
    by (simp only: group_keys_def filter_sort)
qed

lemma filter_eq_distinct:
  "distinct ks \<Longrightarrow> k \<in> set ks \<Longrightarrow> filter (\<lambda>x. x = k) ks = [k]"
proof (induction ks)
  case Nil
  then show ?case by simp
next
  case (Cons a ks)
  show ?case
  proof (cases "a = k")
    case True
    with Cons.prems have "k \<notin> set ks" by simp
    then have "filter (\<lambda>x. x = k) ks = []" by (auto simp: filter_empty_conv)
    with True show ?thesis by simp
  next
    case False
    with Cons show ?thesis by simp
  qed
qed

lemma filter_freq_rows:
  "filter (\<lambda>g. P (ID g)) (map (freq_of data) ks) = map (freq_of data) (filter P ks)"
  by (induction ks) (simp_all add: ID_freq_of)

lemma crossing_ratio_insert:
  "crossing_ratio (get_group (xs @ r # ys) (ID r)) column =
     (real (length (filter (\<lambda>x. ID x = ID r \<and> crosses (column x)) (xs @ ys)))
        + (if crosses (column r) then 1 else 0))
       / (real (length (filter (\<lambda>x. ID x = ID r) (xs @ ys))) + 1)"
  by (simp add: crossing_ratio_get_group add.commute add.left_commute)

text \<open>
  C8 as the claim states it fails. A row of station \<open>A\<close> whose observed gust is missing is
  still counted among the rows of \<open>A\<close>: the frequency of \<open>A\<close> falls from 1 to 1/2. A column
  of observed gusts with a field that is no number is a column of texts, and the
  aggregation of every station ends with \<open>TypeError\<close>.
\<close>

theorem malformed_row_counterexample:
  "freq_df clean_rows =
     Inr [\<lparr>ID = Str_id ''A'', obs_freq = Float 1, wt_freq = Float 0, arc_freq = Float 0\<rparr>,
          \<lparr>ID = Str_id ''B'', obs_freq = Float 0, wt_freq = Float 0, arc_freq = Float 0\<rparr>] \<and>
   freq_df (clean_rows @ [missing_row]) =
     Inr [\<lparr>ID = Str_id ''A'', obs_freq = Float (1 / 2), wt_freq = Float 0, arc_freq = Float 0\<rparr>,
          \<lparr>ID = Str_id ''B'', obs_freq = Float 0, wt_freq = Float 0, arc_freq = Float 0\<rparr>] \<and>
   freq_df text_rows = Inl TypeError"
  by (simp add: freq_df_def group_keys_def get_group_def freq_series_def calc_freq_def
      clean_rows_def missing_row_def text_rows_def)

text \<open>
  C8, amended. In a table whose signal cells are numbers or missing, one more row of a
  station changes the row of frequencies of that station only: the rows of the other
  stations are those of the table without the row, and the station of the row has one row
  of frequencies, in which each frequency counts the new row among the rows of the station
  (the denominator) and among the crossings only if its signal is a number of at least 25;
  so a row with a missing signal adds nothing to the crossings and one to the rows. A row
  with a textual signal makes the aggregation raise \<open>TypeError\<close>, for every station.
\<close>

theorem malformed_row_effect:
  "(numeric_row r \<and> (\<forall>x\<in>set (xs @ ys). numeric_row x) \<longrightarrow>
      (\<exists>fs fs' f. freq_df (xs @ r # ys) = Inr fs \<and> freq_df (xs @ ys) = Inr fs' \<and>
         filter (\<lambda>g. ID g \<noteq> ID r) fs = filter (\<lambda>g. ID g \<noteq> ID r) fs' \<and>
         filter (\<lambda>g. ID g = ID r) fs = [f] \<and>
         obs_freq f =
           Float ((real (length (filter (\<lambda>x. ID x = ID r \<and> crosses (ObsGustSpd1h x)) (xs @ ys)))
                    + (if crosses (ObsGustSpd1h r) then 1 else 0))
                  / (real (length (filter (\<lambda>x. ID x = ID r) (xs @ ys))) + 1)) \<and>
         wt_freq f =
           Float ((real (length (filter (\<lambda>x. ID x = ID r \<and> crosses (wt_operation x)) (xs @ ys)))
                    + (if crosses (wt_operation r) then 1 else 0))
                  / (real (length (filter (\<lambda>x. ID x = ID r) (xs @ ys))) + 1)) \<and>
         arc_freq f =
           Float ((real (length (filter (\<lambda>x. ID x = ID r \<and> crosses (arc_gust_pred x)) (xs @ ys)))
                    + (if crosses (arc_gust_pred r) then 1 else 0))
                  / (real (length (filter (\<lambda>x. ID x = ID r) (xs @ ys))) + 1)))) \<and>
   (\<not> numeric_row r \<longrightarrow> freq_df (xs @ r # ys) = Inl TypeError)"
proof (intro conjI impI)
  assume num: "numeric_row r \<and> (\<forall>x\<in>set (xs @ ys). numeric_row x)"
  let ?with = "xs @ r # ys" and ?without = "xs @ ys"
  let ?fs = "map (freq_of ?with) (group_keys ?with)"
  let ?fs' = "map (freq_of ?without) (group_keys ?without)"
  let ?f = "freq_of ?with (ID r)"
  from num have "\<forall>x\<in>set ?with. numeric_row x" by auto
  then have run: "freq_df ?with = Inr ?fs" by (rule freq_df_numeric)
  from num have "\<forall>x\<in>set ?without. numeric_row x" by auto
  then have run': "freq_df ?without = Inr ?fs'" by (rule freq_df_numeric)
  have "filter (\<lambda>g. ID g \<noteq> ID r) ?fs
      = map (freq_of ?with) (filter (\<lambda>k. k \<noteq> ID r) (group_keys ?with))"
    by (rule filter_freq_rows [where P = "\<lambda>k. k \<noteq> ID r"])
  also have "\<dots> = map (freq_of ?without) (filter (\<lambda>k. k \<noteq> ID r) (group_keys ?with))"
    by (rule map_cong) (simp_all add: freq_of_insert_other)
  also have "\<dots> = map (freq_of ?without) (filter (\<lambda>k. k \<noteq> ID r) (group_keys ?without))"
    by (simp only: group_keys_insert_other)
  also have "\<dots> = filter (\<lambda>g. ID g \<noteq> ID r) ?fs'"
    by (rule filter_freq_rows [where P = "\<lambda>k. k \<noteq> ID r", symmetric])
  finally have others: "filter (\<lambda>g. ID g \<noteq> ID r) ?fs = filter (\<lambda>g. ID g \<noteq> ID r) ?fs'" .
  have "ID r \<in> set (group_keys ?with)" by (simp add: set_group_keys)
  then have "filter (\<lambda>k. k = ID r) (group_keys ?with) = [ID r]"
    by (intro filter_eq_distinct distinct_group_keys)
  then have own: "filter (\<lambda>g. ID g = ID r) ?fs = [?f]"
    by (simp only: filter_freq_rows [where P = "\<lambda>k. k = ID r"] list.map)
  have o: "obs_freq ?f =
      Float ((real (length (filter (\<lambda>x. ID x = ID r \<and> crosses (ObsGustSpd1h x)) ?without))
               + (if crosses (ObsGustSpd1h r) then 1 else 0))
             / (real (length (filter (\<lambda>x. ID x = ID r) ?without)) + 1))"
    by (simp only: freq_of_def crossing_ratio_insert) simp
  have w: "wt_freq ?f =
      Float ((real (length (filter (\<lambda>x. ID x = ID r \<and> crosses (wt_operation x)) ?without))
               + (if crosses (wt_operation r) then 1 else 0))
             / (real (length (filter (\<lambda>x. ID x = ID r) ?without)) + 1))"
    by (simp only: freq_of_def crossing_ratio_insert) simp
  have a: "arc_freq ?f =
      Float ((real (length (filter (\<lambda>x. ID x = ID r \<and> crosses (arc_gust_pred x)) ?without))
               + (if crosses (arc_gust_pred r) then 1 else 0))
             / (real (length (filter (\<lambda>x. ID x = ID r) ?without)) + 1))"
    by (simp only: freq_of_def crossing_ratio_insert) simp
  from run run' others own o w a
  show "\<exists>fs fs' f. freq_df ?with = Inr fs \<and> freq_df ?without = Inr fs' \<and>
         filter (\<lambda>g. ID g \<noteq> ID r) fs = filter (\<lambda>g. ID g \<noteq> ID r) fs' \<and>
         filter (\<lambda>g. ID g = ID r) fs = [f] \<and>
         obs_freq f =
           Float ((real (length (filter (\<lambda>x. ID x = ID r \<and> crosses (ObsGustSpd1h x)) ?without))
                    + (if crosses (ObsGustSpd1h r) then 1 else 0))
                  / (real (length (filter (\<lambda>x. ID x = ID r) ?without)) + 1)) \<and>
         wt_freq f =
           Float ((real (length (filter (\<lambda>x. ID x = ID r \<and> crosses (wt_operation x)) ?without))
                    + (if crosses (wt_operation r) then 1 else 0))
                  / (real (length (filter (\<lambda>x. ID x = ID r) ?without)) + 1)) \<and>
         arc_freq f =
           Float ((real (length (filter (\<lambda>x. ID x = ID r \<and> crosses (arc_gust_pred x)) ?without))
                    + (if crosses (arc_gust_pred r) then 1 else 0))
                  / (real (length (filter (\<lambda>x. ID x = ID r) ?without)) + 1))"
    by blast
next
  assume "\<not> numeric_row r"
  then show "freq_df (xs @ r # ys) = Inl TypeError"
    by (intro freq_df_text [of r]) simp_all
qed

theorem malformed_row_effect_witness:
  "freq_df (clean_rows @ [missing_row]) =
     Inr [\<lparr>ID = Str_id ''A'', obs_freq = Float (1 / 2), wt_freq = Float 0, arc_freq = Float 0\<rparr>,
          \<lparr>ID = Str_id ''B'', obs_freq = Float 0, wt_freq = Float 0, arc_freq = Float 0\<rparr>] \<and>
   freq_df text_rows = Inl TypeError"
proof -
  let ?A = "Str_id ''A''" and ?B = "Str_id ''B''"
  let ?b = "\<lparr>ID = ?B, obs_freq = Float 0, wt_freq = Float 0, arc_freq = Float 0\<rparr>"
  have a: "numeric_row missing_row" by (simp add: numeric_row_def missing_row_def)
  have c: "\<forall>x\<in>set (clean_rows @ []). numeric_row x"
    by (simp add: numeric_row_def clean_rows_def)
  have clean: "freq_df clean_rows =
     Inr [\<lparr>ID = ?A, obs_freq = Float 1, wt_freq = Float 0, arc_freq = Float 0\<rparr>, ?b]"
    by (simp add: freq_df_def group_keys_def get_group_def freq_series_def calc_freq_def
        clean_rows_def)
  have idr: "ID missing_row = ?A" by (simp add: missing_row_def)
  from malformed_row_effect [of missing_row clean_rows "[]", THEN conjunct1, THEN mp] a c
  obtain fs fs' f where run: "freq_df (clean_rows @ [missing_row]) = Inr fs"
    and run': "freq_df (clean_rows @ []) = Inr fs'"
    and others: "filter (\<lambda>g. ID g \<noteq> ?A) fs = filter (\<lambda>g. ID g \<noteq> ?A) fs'"
    and own: "filter (\<lambda>g. ID g = ?A) fs = [f]"
    and o: "obs_freq f =
           Float ((real (length (filter (\<lambda>x. ID x = ?A \<and> crosses (ObsGustSpd1h x)) (clean_rows @ [])))
                    + (if crosses (ObsGustSpd1h missing_row) then 1 else 0))
                  / (real (length (filter (\<lambda>x. ID x = ?A) (clean_rows @ []))) + 1))"
    and w: "wt_freq f =
           Float ((real (length (filter (\<lambda>x. ID x = ?A \<and> crosses (wt_operation x)) (clean_rows @ [])))
                    + (if crosses (wt_operation missing_row) then 1 else 0))
                  / (real (length (filter (\<lambda>x. ID x = ?A) (clean_rows @ []))) + 1))"
    and ar: "arc_freq f =
           Float ((real (length (filter (\<lambda>x. ID x = ?A \<and> crosses (arc_gust_pred x)) (clean_rows @ [])))
                    + (if crosses (arc_gust_pred missing_row) then 1 else 0))
                  / (real (length (filter (\<lambda>x. ID x = ?A) (clean_rows @ []))) + 1))"
    unfolding idr by blast
  from run' clean have fs': "fs' =
     [\<lparr>ID = ?A, obs_freq = Float 1, wt_freq = Float 0, arc_freq = Float 0\<rparr>, ?b]" by simp
  from others have rest: "filter (\<lambda>g. ID g \<noteq> ?A) fs = [?b]" by (simp add: fs')
  from run have "apply_groups (clean_rows @ [missing_row]) [?A, ?B] = Inr fs"
    by (simp add: freq_df_def group_keys_def clean_rows_def missing_row_def)
  then have "map ID fs = [?A, ?B]"
    by (auto split: sum.splits simp: freq_series_def)
  then obtain fa fb where l: "fs = [fa, fb]" and ia: "ID fa = ?A" and ib: "ID fb = ?B"
    by (cases fs; cases "tl fs") auto
  from own l ia ib have fa: "fa = f" by simp
  from rest l ia ib have fb: "fb = ?b" by simp
  from o w ar have "obs_freq f = Float (1 / 2)" "wt_freq f = Float 0" "arc_freq f = Float 0"
    by (simp_all add: clean_rows_def missing_row_def)
  with ia fa have "fa = \<lparr>ID = ?A, obs_freq = Float (1 / 2), wt_freq = Float 0, arc_freq = Float 0\<rparr>"
    by (cases fa) simp
  with run l fb have first: "freq_df (clean_rows @ [missing_row]) =
     Inr [\<lparr>ID = ?A, obs_freq = Float (1 / 2), wt_freq = Float 0, arc_freq = Float 0\<rparr>, ?b]"
    by simp
  have "\<not> numeric_row (text_rows ! 2)" by (simp add: numeric_row_def text_rows_def)
  with malformed_row_effect [of "text_rows ! 2" "take 2 text_rows" "[]", THEN conjunct2]
  have "freq_df (take 2 text_rows @ [text_rows ! 2]) = Inl TypeError" by blast
  moreover have "take 2 text_rows @ [text_rows ! 2] = text_rows"
    by (simp add: text_rows_def)
  ultimately have "freq_df text_rows = Inl TypeError" by simp
  with first show ?thesis by simp
qed


section \<open>The viewport\<close>

lemma save_map_state_nonempty:
  "rd \<noteq> [] \<Longrightarrow>
   save_map_state m (Some rd) cur =
     Some [(''zoom'', dict_get rd ''mapbox.zoom''
                       (dict_get (case cur of None \<Rightarrow> [] | Some st \<Rightarrow> st) ''zoom'' (JNum (Float 7)))),
           (''center'', dict_get rd ''mapbox.center''
                       (dict_get (case cur of None \<Rightarrow> [] | Some st \<Rightarrow> st) ''center''
                          (default_center m)))]"
  by (simp add: save_map_state_def Let_def)

lemma dropna_Float: "dropna (map Float xs) = xs"
  by (induction xs) simp_all

lemma mean_Float: "xs \<noteq> [] \<Longrightarrow> mean (map Float xs) = Float (arithmetic_mean xs)"
  by (simp add: mean_def dropna_Float arithmetic_mean_def)

text \<open>
  C10. The result of the handler for an event that is not empty is a dictionary with exactly
  the two keys \<open>zoom\<close> and \<open>center\<close>, whatever the event held and whatever was stored.
\<close>

theorem save_map_state_never_partial:
  assumes "rd \<noteq> []"
  shows "(\<exists>st. save_map_state m (Some rd) cur = Some st \<and> map fst st = [''zoom'', ''center'']
            \<and> map_of st ''zoom'' \<noteq> None \<and> map_of st ''center'' \<noteq> None) \<and>
         (\<exists>st. map_state (tick sort_values m (ViewportChanged rd) pg) = Some st
            \<and> map fst st = [''zoom'', ''center'']
            \<and> map_of st ''zoom'' \<noteq> None \<and> map_of st ''center'' \<noteq> None)"
  using assms by (simp add: save_map_state_nonempty run_save_map_state_def)

theorem save_map_state_never_partial_witness:
  "save_map_state two_stations (Some [(''mapbox.bearing'', JNum (Float 0))]) None =
     Some [(''zoom'', JNum (Float 7)),
           (''center'', JDict [(''lat'', JNum (Float 41)), (''lon'', JNum (Float 122))])] \<and>
   (\<exists>st. save_map_state two_stations (Some [(''mapbox.zoom'', JNum (Float 9))]) (Some panned) =
        Some st \<and> map fst st = [''zoom'', ''center''])"
proof -
  have ne: "[(''mapbox.zoom'', JNum (Float 9))] \<noteq> []" by simp
  from save_map_state_never_partial
    [OF ne, where m = two_stations and cur = "Some panned", THEN conjunct1]
  have "\<exists>st. save_map_state two_stations (Some [(''mapbox.zoom'', JNum (Float 9))]) (Some panned) =
        Some st \<and> map fst st = [''zoom'', ''center'']" by auto
  moreover have
    "save_map_state two_stations (Some [(''mapbox.bearing'', JNum (Float 0))]) None =
     Some [(''zoom'', JNum (Float 7)),
           (''center'', JDict [(''lat'', JNum (Float 41)), (''lon'', JNum (Float 122))])]"
    by (simp add: save_map_state_def dict_get_def default_center_def two_stations_def mean_def)
  ultimately show ?thesis by blast
qed

text \<open>
  C7 as the claim states it fails. With two stations at latitudes 32 and 50 and longitudes
  100 and 144, an event that holds the zoom only, with nothing stored, gives the centre
  (41, 122), the arithmetic mean of the coordinates; their geometric mean is (40, 120). An
  empty event with nothing stored leaves nothing stored: no default is filled in.
\<close>

theorem default_center_counterexample:
  "save_map_state two_stations (Some [(''mapbox.zoom'', JNum (Float 9))]) None =
     Some [(''zoom'', JNum (Float 9)),
           (''center'', JDict [(''lat'', JNum (Float 41)), (''lon'', JNum (Float 122))])] \<and>
   geometric_mean [32, 50] = 40 \<and> geometric_mean [100, 144] = 120 \<and>
   save_map_state two_stations (Some []) None = None"
proof -
  have "root (Suc (Suc 0)) ((40::real) ^ Suc (Suc 0)) = 40"
    by (rule real_root_power_cancel) simp_all
  then have "root (Suc (Suc 0)) (1600::real) = 40" by simp
  then have a: "geometric_mean [32, 50] = 40" by (simp add: geometric_mean_def)
  have "root (Suc (Suc 0)) ((120::real) ^ Suc (Suc 0)) = 120"
    by (rule real_root_power_cancel) simp_all
  then have "root (Suc (Suc 0)) (14400::real) = 120" by simp
  then have b: "geometric_mean [100, 144] = 120" by (simp add: geometric_mean_def)
  have c: "save_map_state two_stations (Some [(''mapbox.zoom'', JNum (Float 9))]) None =
     Some [(''zoom'', JNum (Float 9)),
           (''center'', JDict [(''lat'', JNum (Float 41)), (''lon'', JNum (Float 122))])]"
    by (simp add: save_map_state_def dict_get_def default_center_def two_stations_def mean_def)
  have d: "save_map_state two_stations (Some []) None = None"
    by (simp add: save_map_state_def)
  from a b c d show ?thesis by blast
qed

text \<open>
  C7, amended. For an event that is not empty: a field that the event holds is taken from
  the event; a field that it does not hold is taken from the stored state when that state
  holds it, and is the default otherwise, which is the zoom 7 and, for the centre, the
  arithmetic mean of the latitudes and of the longitudes of the stations. An event that is
  empty or absent returns the stored state as it is.
\<close>

theorem save_map_state_fields:
  assumes "rd \<noteq> []"
  shows "\<exists>zoom center.
     save_map_state m (Some rd) cur = Some [(''zoom'', zoom), (''center'', center)] \<and>
     (\<forall>v. map_of rd ''mapbox.zoom'' = Some v \<longrightarrow> zoom = v) \<and>
     (\<forall>v. map_of rd ''mapbox.center'' = Some v \<longrightarrow> center = v) \<and>
     (\<forall>st v. map_of rd ''mapbox.zoom'' = None \<and> cur = Some st \<and> map_of st ''zoom'' = Some v
        \<longrightarrow> zoom = v) \<and>
     (\<forall>st v. map_of rd ''mapbox.center'' = None \<and> cur = Some st \<and> map_of st ''center'' = Some v
        \<longrightarrow> center = v) \<and>
     (map_of rd ''mapbox.zoom'' = None \<and> cur = None \<longrightarrow> zoom = JNum (Float 7)) \<and>
     (\<forall>las los. map_of rd ''mapbox.center'' = None \<and> cur = None \<and> las \<noteq> [] \<and>
        map LATD (loc_df m) = map Float las \<and> map LOND (loc_df m) = map Float los
        \<longrightarrow> center = JDict [(''lat'', JNum (Float (arithmetic_mean las))),
                            (''lon'', JNum (Float (arithmetic_mean los)))]) \<and>
     save_map_state m (Some []) cur = cur \<and> save_map_state m None cur = cur"
proof -
  have len: "los \<noteq> []" if "las \<noteq> []" and "map LATD (loc_df m) = map Float las"
    and "map LOND (loc_df m) = map Float los" for las los :: "real list"
  proof -
    from that(2,3) have "length las = length los"
      by (metis length_map)
    with that(1) show ?thesis by auto
  qed
  have dflt: "default_center m = JDict [(''lat'', JNum (Float (arithmetic_mean las))),
                            (''lon'', JNum (Float (arithmetic_mean los)))]"
    if "las \<noteq> []" and "map LATD (loc_df m) = map Float las"
    and "map LOND (loc_df m) = map Float los" for las los
    using that len [OF that] by (simp add: default_center_def mean_Float)
  show ?thesis
    using assms dflt
    by (simp add: save_map_state_nonempty) (auto simp: dict_get_def save_map_state_def)
qed

theorem save_map_state_fields_witness:
  "save_map_state two_stations (Some [(''mapbox.zoom'', JNum (Float 9))]) None =
     Some [(''zoom'', JNum (Float 9)),
           (''center'', JDict [(''lat'', JNum (Float (arithmetic_mean [32, 50]))),
                               (''lon'', JNum (Float (arithmetic_mean [100, 144])))])] \<and>
   save_map_state two_stations (Some [(''mapbox.bearing'', JNum (Float 0))]) (Some panned) =
     Some panned"
proof -
  have ne: "[(''mapbox.zoom'', JNum (Float 9))] \<noteq> []" by simp
  from save_map_state_fields [OF ne, of two_stations None]
  obtain zoom center where
    r: "save_map_state two_stations (Some [(''mapbox.zoom'', JNum (Float 9))]) None =
          Some [(''zoom'', zoom), (''center'', center)]"
    and z: "\<forall>v. map_of [(''mapbox.zoom'', JNum (Float 9))] ''mapbox.zoom'' = Some v \<longrightarrow> zoom = v"
    and c: "\<forall>las los. map_of [(''mapbox.zoom'', JNum (Float 9))] ''mapbox.center'' = None \<and>
        (None :: dict option) = None \<and> las \<noteq> [] \<and>
        map LATD (loc_df two_stations) = map Float las \<and>
        map LOND (loc_df two_stations) = map Float los
        \<longrightarrow> center = JDict [(''lat'', JNum (Float (arithmetic_mean las))),
                            (''lon'', JNum (Float (arithmetic_mean los)))]"
    by blast
  from z have z': "zoom = JNum (Float 9)" by simp
  have "map LATD (loc_df two_stations) = map Float [32, 50]"
    "map LOND (loc_df two_stations) = map Float [100, 144]"
    by (simp_all add: two_stations_def)
  with c have c': "center = JDict [(''lat'', JNum (Float (arithmetic_mean [32, 50]))),
                            (''lon'', JNum (Float (arithmetic_mean [100, 144])))]"
    by simp
  have ne2: "[(''mapbox.bearing'', JNum (Float 0))] \<noteq> []" by simp
  from save_map_state_fields [OF ne2, of two_stations "Some panned"]
  obtain zoom2 center2 where
    r2: "save_map_state two_stations (Some [(''mapbox.bearing'', JNum (Float 0))]) (Some panned) =
          Some [(''zoom'', zoom2), (''center'', center2)]"
    and z2: "\<forall>st v. map_of [(''mapbox.bearing'', JNum (Float 0))] ''mapbox.zoom'' = None \<and>
        Some panned = Some st \<and> map_of st ''zoom'' = Some v \<longrightarrow> zoom2 = v"
    and c2: "\<forall>st v. map_of [(''mapbox.bearing'', JNum (Float 0))] ''mapbox.center'' = None \<and>
        Some panned = Some st \<and> map_of st ''center'' = Some v \<longrightarrow> center2 = v"
    by blast
  from z2 have "zoom2 = JNum (Float 9)" by (simp add: panned_def)
  moreover from c2 have "center2 = JDict [(''lat'', JNum (Float 35)), (''lon'', JNum (Float 139))]"
    by (simp add: panned_def)
  ultimately have "save_map_state two_stations (Some [(''mapbox.bearing'', JNum (Float 0))])
      (Some panned) = Some panned"
    using r2 by (simp add: panned_def)
  with r z' c' show ?thesis by simp
qed


section \<open>The viewport across the other events\<close>

lemma map_state_run_update_map_figure:
  "map_state (run_update_map_figure m pg) = map_state pg"
  by (simp add: run_update_map_figure_def split: sum.splits)

lemma map_state_run_update_timeseries:
  "map_state (run_update_timeseries sort_values m pg) = map_state pg"
  by (simp add: run_update_timeseries_def split: sum.splits)

lemma map_state_run_update_station_list:
  "map_state (run_update_station_list sort_values m trig pg) = map_state pg"
  by (simp add: run_update_station_list_def map_state_run_update_timeseries
      map_state_run_update_map_figure split: sum.splits)

lemma map_state_tick:
  "\<not> is_viewport_event e \<Longrightarrow> map_state (tick sort_values m e pg) = map_state pg"
  by (cases e)
    (simp_all add: map_state_run_update_station_list map_state_run_update_timeseries)

lemma map_state_ticks:
  "\<forall>e\<in>set es. \<not> is_viewport_event e \<Longrightarrow>
   map_state (ticks sort_values m es pg) = map_state pg"
  by (induction es arbitrary: pg) (simp_all add: map_state_tick)

lemma update_center_lat_lon:
  assumes "map_of kv ''lat'' = Some (JNum la)" and "map_of kv ''lon'' = Some (JNum lo)"
    and "set (map fst kv) \<subseteq> {''lat'', ''lon''}"
  shows "update_center c (JDict kv) = Inr \<lparr>center_lat = Some la, center_lon = Some lo\<rparr>"
proof -
  from assms(3) have "\<not> list_ex (\<lambda>k. k \<noteq> ''lat'' \<and> k \<noteq> ''lon'') (map fst kv)"
    by (auto simp: list_ex_iff)
  with assms(1,2) show ?thesis by (simp add: merge_property_def)
qed

lemma update_map_figure_stored:
  assumes "map_of st ''center'' = Some (JDict kv)" and "map_of st ''zoom'' = Some (JNum z)"
    and "map_of kv ''lat'' = Some (JNum la)" and "map_of kv ''lon'' = Some (JNum lo)"
    and "set (map fst kv) \<subseteq> {''lat'', ''lon''}"
  shows "update_map_figure m ids (Some st) =
     Inr ((create_map m ids)\<lparr>mapbox_center := \<lparr>center_lat = Some la, center_lon = Some lo\<rparr>,
                              mapbox_zoom := Some z\<rparr>)"
proof -
  from assms(1) have "st \<noteq> []" by auto
  with assms(1,2) update_center_lat_lon [OF assms(3,4,5)] show ?thesis
    by (simp add: update_map_figure_def update_layout_def dict_get_def)
qed

text \<open>
  C1. An event that is not a change of the viewport (a click on a marker, a reset, a change
  of the case window) leaves the stored viewport as it was, and so does any sequence of
  such events. \<^verbatim>\<open>update_map_figure\<close> writes the figure only; when the stored viewport
  holds a zoom that is a number and a centre with a latitude and a longitude that are
  numbers, and nothing else, the figure that is written is the map of the selection with
  that zoom and that centre.
\<close>

theorem viewport_persists:
  "(\<not> is_viewport_event e \<longrightarrow> map_state (tick sort_values m e pg) = map_state pg) \<and>
   ((\<forall>e\<in>set es. \<not> is_viewport_event e) \<longrightarrow>
      map_state (ticks sort_values m es pg) = map_state pg) \<and>
   map_state (run_update_map_figure m pg) = map_state pg \<and>
   (\<forall>st kv la lo z.
      map_state pg = Some st \<and> map_of st ''center'' = Some (JDict kv) \<and>
      map_of st ''zoom'' = Some (JNum z) \<and>
      map_of kv ''lat'' = Some (JNum la) \<and> map_of kv ''lon'' = Some (JNum lo) \<and>
      set (map fst kv) \<subseteq> {''lat'', ''lon''}
      \<longrightarrow> station_map_figure (run_update_map_figure m pg) =
            (create_map m (selected_station_ids pg))
              \<lparr>mapbox_center := \<lparr>center_lat = Some la, center_lon = Some lo\<rparr>,
               mapbox_zoom := Some z\<rparr>)"
proof (intro conjI impI allI)
  assume "\<not> is_viewport_event e"
  then show "map_state (tick sort_values m e pg) = map_state pg" by (rule map_state_tick)
next
  assume "\<forall>e\<in>set es. \<not> is_viewport_event e"
  then show "map_state (ticks sort_values m es pg) = map_state pg" by (rule map_state_ticks)
next
  show "map_state (run_update_map_figure m pg) = map_state pg"
    by (rule map_state_run_update_map_figure)
next
  fix st kv la lo z
  assume a: "map_state pg = Some st \<and> map_of st ''center'' = Some (JDict kv) \<and>
      map_of st ''zoom'' = Some (JNum z) \<and>
      map_of kv ''lat'' = Some (JNum la) \<and> map_of kv ''lon'' = Some (JNum lo) \<and>
      set (map fst kv) \<subseteq> {''lat'', ''lon''}"
  then have "update_map_figure m (selected_station_ids pg) (Some st) =
     Inr ((create_map m (selected_station_ids pg))
        \<lparr>mapbox_center := \<lparr>center_lat = Some la, center_lon = Some lo\<rparr>, mapbox_zoom := Some z\<rparr>)"
    by (intro update_map_figure_stored) (elim conjE, assumption)+
  with a show "station_map_figure (run_update_map_figure m pg) =
            (create_map m (selected_station_ids pg))
              \<lparr>mapbox_center := \<lparr>center_lat = Some la, center_lon = Some lo\<rparr>,
               mapbox_zoom := Some z\<rparr>"
    by (simp add: run_update_map_figure_def)
qed

theorem viewport_persists_witness:
  "map_state (ticks sort_values_VALIDTIME two_stations
      [MarkerClicked (marker_click (Str_id ''A'')),
       CaseWindowChanged ''Case 2: 2025/02/13 - 2025/02/15'',
       ResetClicked] some_page) = Some panned \<and>
   mapbox_center (station_map_figure (run_update_map_figure two_stations some_page)) =
     \<lparr>center_lat = Some (Float 35), center_lon = Some (Float 139)\<rparr> \<and>
   mapbox_zoom (station_map_figure (run_update_map_figure two_stations some_page)) =
     Some (Float 9)"
proof -
  let ?es = "[MarkerClicked (marker_click (Str_id ''A'')),
    CaseWindowChanged ''Case 2: 2025/02/13 - 2025/02/15'', ResetClicked]"
  let ?kv = "[(''lat'', JNum (Float 35)), (''lon'', JNum (Float 139))]"
  note v = viewport_persists [where es = ?es and pg = some_page and m = two_stations
      and sort_values = sort_values_VALIDTIME]
  have no: "\<forall>e\<in>set ?es. \<not> is_viewport_event e" by simp
  have st: "map_state some_page = Some panned" by (simp add: some_page_def)
  from v [THEN conjunct2, THEN conjunct1, THEN mp, OF no]
  have kept: "map_state (ticks sort_values_VALIDTIME two_stations ?es some_page)
      = map_state some_page" .
  have stored: "map_state some_page = Some panned \<and>
    map_of panned ''center'' = Some (JDict ?kv) \<and>
    map_of panned ''zoom'' = Some (JNum (Float 9)) \<and>
    map_of ?kv ''lat'' = Some (JNum (Float 35)) \<and> map_of ?kv ''lon'' = Some (JNum (Float 139)) \<and>
    set (map fst ?kv) \<subseteq> {''lat'', ''lon''}"
    by (simp add: panned_def some_page_def)
  have "station_map_figure (run_update_map_figure two_stations some_page) =
      (create_map two_stations (selected_station_ids some_page))
        \<lparr>mapbox_center := \<lparr>center_lat = Some (Float 35), center_lon = Some (Float 139)\<rparr>,
         mapbox_zoom := Some (Float 9)\<rparr>"
    by (rule v [THEN conjunct2, THEN conjunct2, THEN conjunct2, THEN spec, THEN spec, THEN spec,
          THEN spec, THEN spec, THEN mp, OF stored])
  then show ?thesis using kept st by simp
qed


section \<open>The selection\<close>

lemma update_station_list_click:
  "update_station_list (Some ''station-map'') (Some (marker_click sid)) n sel =
     Inr (if sid \<in> set sel then sel else sel @ [sid])"
  by (simp add: update_station_list_def marker_click_def)

lemma clicks_result:
  "\<exists>sel'. clicks sids n sel = Inr sel' \<and> (distinct sel \<longrightarrow> distinct sel') \<and>
     length sel \<le> length sel' \<and> set sel' = set sel \<union> set sids \<and> take (length sel) sel' = sel"
proof (induction sids arbitrary: sel)
  case Nil
  show ?case by simp
next
  case (Cons sid sids)
  let ?one = "if sid \<in> set sel then sel else sel @ [sid]"
  from Cons [of ?one] obtain sel' where
    run: "clicks sids n ?one = Inr sel'" and d: "distinct ?one \<longrightarrow> distinct sel'"
    and l: "length ?one \<le> length sel'" and s: "set sel' = set ?one \<union> set sids"
    and t: "take (length ?one) sel' = ?one"
    by blast
  have "clicks (sid # sids) n sel = Inr sel'"
    by (simp only: clicks.simps update_station_list_click sum.case run)
  moreover have "distinct sel \<longrightarrow> distinct sel'" using d by auto
  moreover have "length sel \<le> length sel'" using l by (auto split: if_splits)
  moreover have "set sel' = set sel \<union> set (sid # sids)" using s by auto
  moreover have "take (length sel) sel' = sel"
  proof -
    have "take (length sel) sel' = take (length sel) (take (length ?one) sel')"
      by (simp add: min_def)
    also have "\<dots> = take (length sel) ?one" by (simp only: t)
    also have "\<dots> = sel" by simp
    finally show ?thesis .
  qed
  ultimately show ?case by blast
qed

text \<open>
  C2. A click on a marker whose station is selected leaves the selection as it is, and a
  click on another marker appends its station at the end. Over any sequence of clicks the
  callback returns, a selection without duplicates stays without duplicates, the length
  does not decrease, the former selection is the beginning of the new one, and the
  stations selected are the former ones and those clicked.
\<close>

theorem clicks_keep_ordered_set:
  "update_station_list (Some ''station-map'') (Some (marker_click sid)) n sel =
     Inr (if sid \<in> set sel then sel else sel @ [sid]) \<and>
   (\<exists>sel'. clicks sids n sel = Inr sel' \<and> (distinct sel \<longrightarrow> distinct sel') \<and>
      length sel \<le> length sel' \<and> set sel' = set sel \<union> set sids \<and>
      take (length sel) sel' = sel)"
  by (intro conjI update_station_list_click clicks_result)

theorem clicks_keep_ordered_set_witness:
  "clicks [''B'', ''A'', ''B'', ''C''] 0 [''A''] = Inr [''A'', ''B'', ''C''] \<and>
   distinct [''A'', ''B'', ''C'']"
proof -
  from clicks_keep_ordered_set [of "''B''" 0 "[''A'']" "[''B'', ''A'', ''B'', ''C'']"]
  obtain sel' where run: "clicks [''B'', ''A'', ''B'', ''C''] 0 [''A''] = Inr sel'"
    and d: "distinct [''A''] \<longrightarrow> distinct sel'" by blast
  have "clicks [''B'', ''A'', ''B'', ''C''] 0 [''A''] = Inr [''A'', ''B'', ''C'']"
    by (simp add: update_station_list_click)
  with run d show ?thesis by simp
qed


text \<open>
  C9 as the claim states it fails. When a click and a press on the reset button trigger one
  call and the click is the first of the two, the callback does not see the reset: the
  station clicked is appended.
\<close>

theorem reset_and_click_counterexample:
  "update_station_list
     (ctx_triggered_id [(''station-map'', ''clickData''), (''reset-button'', ''n_clicks'')])
     (Some (marker_click ''C'')) 1 [''A'', ''B''] = Inr [''A'', ''B'', ''C'']"
  by (simp add: update_station_list_def marker_click_def)

text \<open>
  C9, amended. A call whose first trigger is the reset button returns the empty selection,
  whatever the selection was, whatever click the map holds and whatever else triggered
  the call; after a press on the button the store of the selection is empty. A call whose
  first trigger is the map treats the click as a click alone, also when the reset button
  is among its triggers.
\<close>

theorem reset_always_empties:
  "update_station_list (ctx_triggered_id ((''reset-button'', property) # others))
     clickData n selected_ids = Inr [] \<and>
   selected_station_ids (tick sort_values m ResetClicked pg) = [] \<and>
   update_station_list (ctx_triggered_id ((''station-map'', property) # others))
     (Some (marker_click sid)) n selected_ids =
       Inr (if sid \<in> set selected_ids then selected_ids else selected_ids @ [sid])"
  by (simp add: update_station_list_def run_update_station_list_def run_update_timeseries_def
      run_update_map_figure_def update_timeseries_def marker_click_def split: sum.splits)


section \<open>Stations without a location\<close>

lemma freq_series_ID: "freq_series k g = Inr f \<Longrightarrow> ID f = k"
  by (auto simp: freq_series_def split: sum.splits)

lemma apply_groups_IDs: "apply_groups data ks = Inr fs \<Longrightarrow> map ID fs = ks"
  by (induction ks arbitrary: fs) (auto split: sum.splits dest: freq_series_ID)

lemma freq_df_distinct_IDs: "freq_df data = Inr fs \<Longrightarrow> distinct (map ID fs)"
  by (simp add: freq_df_def apply_groups_IDs distinct_group_keys)

lemma freq_df_IDs: "freq_df data = Inr fs \<Longrightarrow> set (map ID fs) = ID ` set data"
  by (simp add: freq_df_def apply_groups_IDs set_group_keys del: set_map)

lemma calc_freq_Float:
  "calc_freq g column = Inr v \<Longrightarrow> g \<noteq> [] \<Longrightarrow> \<exists>x. v = Float x"
  by (auto simp: calc_freq_def split: sum.splits)

lemma freq_series_obs_Float:
  "freq_series k g = Inr f \<Longrightarrow> g \<noteq> [] \<Longrightarrow> \<exists>x. obs_freq f = Float x"
  by (auto simp: freq_series_def split: sum.splits dest: calc_freq_Float)

lemma apply_groups_obs_Float:
  "apply_groups data ks = Inr fs \<Longrightarrow> set ks \<subseteq> ID ` set data \<Longrightarrow> f \<in> set fs \<Longrightarrow>
   \<exists>x. obs_freq f = Float x"
proof (induction ks arbitrary: fs)
  case Nil
  then show ?case by simp
next
  case (Cons k ks)
  from Cons.prems(1) obtain f0 fs0 where
    f0: "freq_series k (get_group data k) = Inr f0" and
    fs0: "apply_groups data ks = Inr fs0" and fs: "fs = f0 # fs0"
    by (auto split: sum.splits)
  from Cons.prems(2) have "get_group data k \<noteq> []"
    by (intro get_group_nonempty) simp
  with f0 have "\<exists>x. obs_freq f0 = Float x" by (rule freq_series_obs_Float)
  moreover have "\<exists>x. obs_freq f = Float x" if "f \<in> set fs0"
    using Cons.IH [OF fs0 _ that] Cons.prems(2) by simp
  ultimately show ?case using Cons.prems(3) fs by auto
qed

lemma freq_df_obs_Float:
  "freq_df data = Inr fs \<Longrightarrow> f \<in> set fs \<Longrightarrow> \<exists>x. obs_freq f = Float x"
  unfolding freq_df_def by (erule apply_groups_obs_Float) (simp_all add: set_group_keys)

lemma ID_joined: "ID (joined f la lo) = ID f"
  by (simp add: joined_def)

lemma obs_freq_joined: "obs_freq (joined f la lo) = obs_freq f"
  by (simp add: joined_def)

lemma no_location:
  assumes "ID f \<notin> ID ` set loc"
  shows "filter (\<lambda>l. ID l = ID f) loc = []"
proof -
  have "ID l \<noteq> ID f" if "l \<in> set loc" for l
    using that assms by (metis image_eqI)
  then show ?thesis by (simp add: filter_empty_conv)
qed

lemma rows_of_other:
  assumes "ID g \<noteq> k"
  shows "filter (\<lambda>q. ID q = k)
           (case filter (\<lambda>l. ID l = ID g) loc of
              [] \<Rightarrow> [joined g NaN NaN]
            | ms \<Rightarrow> map (\<lambda>l. joined g (LATD l) (LOND l)) ms) = []"
  using assms by (cases "filter (\<lambda>l. ID l = ID g) loc") (simp_all add: ID_joined filter_empty_conv)

lemma merge_rows_orphan:
  assumes "distinct (map ID fs)" and "f \<in> set fs" and "ID f \<notin> ID ` set loc"
  shows "filter (\<lambda>q. ID q = ID f) (merge_rows fs loc) = [joined f NaN NaN]"
  using assms(1,2)
proof (induction fs)
  case Nil
  then show ?case by simp
next
  case (Cons g fs)
  have split: "filter (\<lambda>q. ID q = ID f) (merge_rows (g # fs) loc) =
      filter (\<lambda>q. ID q = ID f)
        (case filter (\<lambda>l. ID l = ID g) loc of
           [] \<Rightarrow> [joined g NaN NaN]
         | ms \<Rightarrow> map (\<lambda>l. joined g (LATD l) (LOND l)) ms)
      @ filter (\<lambda>q. ID q = ID f) (merge_rows fs loc)"
    by (simp add: merge_rows_def)
  show ?case
  proof (cases "g = f")
    case True
    from Cons.prems(1) have notin: "ID g \<notin> set (map ID fs)" by simp
    have "ID g' \<noteq> ID f" if "g' \<in> set fs" for g'
    proof
      assume "ID g' = ID f"
      with that True have "ID g \<in> set (map ID fs)" by (metis image_eqI set_map)
      with notin show False by simp
    qed
    then have "filter (\<lambda>q. ID q = ID f) (merge_rows fs loc) = []"
      by (induction fs) (simp_all add: merge_rows_def rows_of_other)
    with True no_location [OF assms(3)] show ?thesis
      unfolding split by (simp add: ID_joined)
  next
    case False
    with Cons.prems(2) have "f \<in> set fs" by simp
    from Cons.prems(1) have "ID g \<notin> set (map ID fs)" by simp
    with \<open>f \<in> set fs\<close> have "ID g \<noteq> ID f" by (metis image_eqI set_map)
    moreover from Cons.prems(1) \<open>f \<in> set fs\<close>
    have "filter (\<lambda>q. ID q = ID f) (merge_rows fs loc) = [joined f NaN NaN]"
      by (intro Cons.IH) simp_all
    ultimately show ?thesis unfolding split by (simp add: rows_of_other)
  qed
qed

lemma marker_text_filter:
  "filter (\<lambda>i. i = k) (marker_text (scattermapbox sel df color nm)) =
     map ID (filter (\<lambda>q. ID q = k) df)"
  by (simp add: scattermapbox_def filter_map comp_def)

text \<open>
  C3 as the claim states it fails. Station \<open>B\<close> has observations and no row of location:
  the join keeps it, with missing coordinates, and it is a marker of the group of low
  frequency.
\<close>

theorem orphan_station_counterexample:
  "load_module only_A clean_rows = Inr orphan_module \<and>
   map ID (low_freq_df orphan_module) = [Str_id ''B''] \<and>
   map plot_LATD (low_freq_df orphan_module) = [NaN] \<and>
   map marker_text (fig_data (create_map orphan_module [])) = [[Str_id ''B''], [Str_id ''A'']]"
  by (simp add: load_module_def freq_df_def group_keys_def get_group_def freq_series_def
      calc_freq_def clean_rows_def merge_left_def merge_rows_def merge_raises_def joined_def
      only_A_def orphan_module_def create_map_def scattermapbox_def)

text \<open>
  C3, amended. When the frequencies are computed and the join is not refused (which it is
  when the identifiers of one table are integers and those of the other strings), the
  module loads. A station that has a row of frequencies and no row of location then has
  exactly one row in the joined table, with missing latitude and longitude; that row is in
  the group of high frequency if its observed frequency is at least 0.004 and in the group
  of low frequency otherwise, in no group twice, and the station is a label of the trace of
  that group and not of the other.
\<close>

theorem orphan_station_kept:
  assumes "freq_df data = Inr fs" and "f \<in> set fs" and "ID f \<notin> ID ` set loc"
    and "\<not> merge_raises (map ID fs) (map ID loc)"
  shows "\<exists>m x. load_module loc data = Inr m \<and> obs_freq f = Float x \<and>
     filter (\<lambda>q. ID q = ID f) (plot_df m) = [joined f NaN NaN] \<and>
     filter (\<lambda>q. ID q = ID f) (high_freq_df m) = (if 0.004 \<le> x then [joined f NaN NaN] else []) \<and>
     filter (\<lambda>q. ID q = ID f) (low_freq_df m) = (if x < 0.004 then [joined f NaN NaN] else []) \<and>
     (\<forall>sel. map (\<lambda>t. filter (\<lambda>i. i = ID f) (marker_text t)) (fig_data (create_map m sel)) =
        [if x < 0.004 then [ID f] else [], if 0.004 \<le> x then [ID f] else []])"
proof -
  let ?plot = "merge_rows fs loc"
  let ?m = "\<lparr>loc_df = loc, data_df = data, plot_df = ?plot,
             high_freq_df = filter (\<lambda>p. float_ge (obs_freq p) 0.004) ?plot,
             low_freq_df = filter (\<lambda>p. float_lt (obs_freq p) 0.004) ?plot\<rparr>"
  let ?p = "joined f NaN NaN"
  from assms(1,2) have "ID f \<in> ID ` set data"
    using freq_df_IDs [OF assms(1)] by auto
  then have "data \<noteq> []" by auto
  with assms(1,4) have run: "load_module loc data = Inr ?m"
    by (simp add: load_module_def merge_left_def)
  from freq_df_obs_Float [OF assms(1,2)] obtain x where x: "obs_freq f = Float x" by blast
  have own: "filter (\<lambda>q. ID q = ID f) ?plot = [?p]"
    by (rule merge_rows_orphan [OF freq_df_distinct_IDs [OF assms(1)] assms(2,3)])
  have high: "filter (\<lambda>q. ID q = ID f) (high_freq_df ?m) = (if 0.004 \<le> x then [?p] else [])"
  proof -
    have "filter (\<lambda>q. ID q = ID f) (high_freq_df ?m) =
        filter (\<lambda>p. float_ge (obs_freq p) 0.004) (filter (\<lambda>q. ID q = ID f) ?plot)"
      by (simp add: conj_commute)
    then show ?thesis by (simp only: own) (simp add: obs_freq_joined x)
  qed
  have low: "filter (\<lambda>q. ID q = ID f) (low_freq_df ?m) = (if x < 0.004 then [?p] else [])"
  proof -
    have "filter (\<lambda>q. ID q = ID f) (low_freq_df ?m) =
        filter (\<lambda>p. float_lt (obs_freq p) 0.004) (filter (\<lambda>q. ID q = ID f) ?plot)"
      by (simp add: conj_commute)
    then show ?thesis by (simp only: own) (simp add: obs_freq_joined x)
  qed
  have labels: "map (\<lambda>t. filter (\<lambda>i. i = ID f) (marker_text t)) (fig_data (create_map ?m sel)) =
        [if x < 0.004 then [ID f] else [], if 0.004 \<le> x then [ID f] else []]" for sel
  proof -
    have "map (\<lambda>t. filter (\<lambda>i. i = ID f) (marker_text t)) (fig_data (create_map ?m sel)) =
        [map ID (filter (\<lambda>q. ID q = ID f) (low_freq_df ?m)),
         map ID (filter (\<lambda>q. ID q = ID f) (high_freq_df ?m))]"
      by (simp only: create_map_def figure.simps list.map marker_text_filter)
    then show ?thesis by (simp only: high low) (simp add: ID_joined)
  qed
  from run x own high low labels show ?thesis
    by (intro exI [of _ ?m] exI [of _ x]) (simp only: module.simps simp_thms)
qed

theorem orphan_station_kept_witness:
  "load_module only_A clean_rows = Inr orphan_module \<and>
   filter (\<lambda>q. ID q = Str_id ''B'') (plot_df orphan_module) = [joined freq_B NaN NaN] \<and>
   filter (\<lambda>q. ID q = Str_id ''B'') (low_freq_df orphan_module) = [joined freq_B NaN NaN] \<and>
   filter (\<lambda>q. ID q = Str_id ''B'') (high_freq_df orphan_module) = []"
proof -
  let ?fs = "[\<lparr>ID = Str_id ''A'', obs_freq = Float 1, wt_freq = Float 0, arc_freq = Float 0\<rparr>, freq_B]"
  have a: "freq_df clean_rows = Inr ?fs"
    by (simp add: freq_df_def group_keys_def get_group_def freq_series_def calc_freq_def
        clean_rows_def freq_B_def)
  have b: "freq_B \<in> set ?fs" by simp
  have c: "ID freq_B \<notin> ID ` set only_A" by (simp add: freq_B_def only_A_def)
  have d: "\<not> merge_raises (map ID ?fs) (map ID only_A)"
    by (simp add: merge_raises_def freq_B_def only_A_def)
  have e: "load_module only_A clean_rows = Inr orphan_module"
    by (simp add: load_module_def freq_df_def group_keys_def get_group_def freq_series_def
      calc_freq_def clean_rows_def merge_left_def merge_rows_def merge_raises_def joined_def
      only_A_def orphan_module_def)
  have idb: "ID freq_B = Str_id ''B''" and ob: "obs_freq freq_B = Float 0"
    by (simp_all add: freq_B_def)
  from orphan_station_kept [OF a b c d] obtain m x where
    run: "load_module only_A clean_rows = Inr m" and x: "obs_freq freq_B = Float x"
    and p: "filter (\<lambda>q. ID q = Str_id ''B'') (plot_df m) = [joined freq_B NaN NaN]"
    and h: "filter (\<lambda>q. ID q = Str_id ''B'') (high_freq_df m) =
        (if 0.004 \<le> x then [joined freq_B NaN NaN] else [])"
    and l: "filter (\<lambda>q. ID q = Str_id ''B'') (low_freq_df m) =
        (if x < 0.004 then [joined freq_B NaN NaN] else [])"
    unfolding idb by blast
  from run e have m: "m = orphan_module" by simp
  from x ob have "x = 0" by simp
  with p h l e show ?thesis by (simp add: m)
qed


section \<open>The rows of a chart\<close>

lemma site_df_filter:
  "site_df sort_values data point_id start_date end_date =
     sort_values (filter (passes_filters point_id start_date end_date) data)"
proof -
  have "filter (\<lambda>r. 0 \<le> ft r \<and> ft r \<le> 23)
          (filter (\<lambda>r. start_date \<le> VALIDTIME r \<and> VALIDTIME r \<le> end_date)
             (filter (\<lambda>r. ID r = point_id) data))
      = filter (passes_filters point_id start_date end_date) data"
    by (induction data) (auto simp: passes_filters_def)
  then show ?thesis by (simp only: site_df_def)
qed

lemma introsort_short:
  "length a \<le> 17 \<Longrightarrow> 0 \<le> cdepth \<Longrightarrow> introsort f popped cdepth a = insertion_sort f a"
proof -
  assume "length a \<le> 17" and "0 \<le> cdepth"
  then have "\<not> (popped \<and> cdepth < 0)" and "\<not> 16 < length a - 1" by simp_all
  then show ?thesis by (subst introsort.simps) (simp only: if_False)
qed

lemma npy_aquicksort_short: "length a \<le> 17 \<Longrightarrow> npy_aquicksort f a = insertion_sort f a"
  by (simp add: npy_aquicksort_def introsort_short)

text \<open>
  C5. The claim holds for the forecast hours and the station and fails for the last day of
  the window: the code compares the time of a row, a string with the time of day, with the
  bare date that ends the window, and a time on that date is greater than the date. The
  only observation of station \<open>X\<close> is of 03:00 on the last day of the second case; it is
  inside the window as the claim has it, and the callback finds no row for the station.
\<close>

theorem last_day_dropped:
  "in_case_window (Str_id ''X'') ''2025-02-13'' ''2025-02-15'' (row_at ''X'' ''2025-02-15 03:00'' 3) \<and>
   site_df sort_values_VALIDTIME (data_df last_day) (Str_id ''X'') ''2025-02-13'' ''2025-02-15'' = [] \<and>
   update_timeseries sort_values_VALIDTIME last_day [Str_id ''X'']
       ''Case 2: 2025/02/13 - 2025/02/15'' =
     Inr (Graphs [No_data ''No data for X during Case 2: 2025/02/13 - 2025/02/15''])"
proof -
  have a: "in_case_window (Str_id ''X'') ''2025-02-13'' ''2025-02-15''
      (row_at ''X'' ''2025-02-15 03:00'' 3)"
    by (simp add: in_case_window_def date_of_def row_at_def)
  have "filter (passes_filters (Str_id ''X'') ''2025-02-13'' ''2025-02-15'') (data_df last_day) = []"
    by (simp add: passes_filters_def last_day_def row_at_def)
  then have b: "site_df sort_values_VALIDTIME (data_df last_day) (Str_id ''X'')
      ''2025-02-13'' ''2025-02-15'' = []"
    by (simp add: site_df_filter sort_values_VALIDTIME_def npy_aquicksort_short
        insertion_sort_def)
  have "map_of cases ''Case 2: 2025/02/13 - 2025/02/15'' = Some (''2025-02-13'', ''2025-02-15'')"
    by (simp add: cases_def)
  with b have "update_timeseries sort_values_VALIDTIME last_day [Str_id ''X'']
       ''Case 2: 2025/02/13 - 2025/02/15'' =
     Inr (Graphs [No_data ''No data for X during Case 2: 2025/02/13 - 2025/02/15''])"
    by (simp add: update_timeseries_def site_chart_def)
  with a b show ?thesis by blast
qed

section \<open>The order of the rows of a chart\<close>











end
